theory Spec2Isabelle
  imports Complex_Main "HOL-Library.Word" "HOL-Library.Log_Nat"
begin

unbundle bit_operations_syntax

section \<open>Element types, fill status and failures\<close>

text \<open>
  The type tags that \<^verbatim>\<open>numpy.cpp\<close> names. The enumeration itself is declared
  elsewhere in the library; every tag of it that this file never names is
  \<open>DTYPE_OTHER\<close>.
\<close>

datatype t_dtype =
    DTYPE_UINT8 | DTYPE_UINT16 | DTYPE_UINT32 | DTYPE_UINT64
  | DTYPE_INT8 | DTYPE_INT16 | DTYPE_INT32 | DTYPE_INT64
  | DTYPE_FLOAT32 | DTYPE_FLOAT64
  | DTYPE_BOOL | DTYPE_TIME | DTYPE_DATE | DTYPE_STR
  | DTYPE_OTHER nat

datatype t_fill_status = FILL_SUCCEED | FILL_FAIL

text \<open>
  Every way a call of the loader stops without returning: the failed
  \<^verbatim>\<open>PSP_VERBOSE_ASSERT(m_init, ...)\<close>, the two \<^verbatim>\<open>PSP_COMPLAIN_AND_ABORT\<close> of
  \<^verbatim>\<open>fill_column\<close>, a lookup of a column the table does not hold, a failed
  \<^verbatim>\<open>item.cast<...>()\<close>, and the integer remainder by zero of the index loop
  (undefined in C++; a trap on the usual targets).
\<close>

datatype error =
    NotInitialized
  | UnknownColumn string
  | NotANumpyArray string
  | NoSuchColumn string
  | CastError
  | RemainderByZero

section \<open>The source buffer\<close>

text \<open>
  \<^verbatim>\<open>array.data()\<close> is an untyped pointer; the code reads it through casts to
  \<^verbatim>\<open>double*\<close>, \<^verbatim>\<open>std::int64_t*\<close>, \<^verbatim>\<open>std::int32_t*\<close> and so on, with no bound
  check. The model is the memory that starts at that pointer, byte by byte; element \<open>i\<close>
  of a view of width \<open>w\<close> bytes is the little-endian word at byte offset \<open>w * i\<close>.
\<close>

type_synonym raw_memory = "nat \<Rightarrow> 8 word"

fun le_word :: "8 word list \<Rightarrow> 'a::len word" where
  "le_word [] = 0"
| "le_word (b # bs) = ucast b OR push_bit 8 (le_word bs)"

definition read_uint8 :: "raw_memory \<Rightarrow> nat \<Rightarrow> 8 word" where
  "read_uint8 ptr i = ptr i"

definition read_uint16 :: "raw_memory \<Rightarrow> nat \<Rightarrow> 16 word" where
  "read_uint16 ptr i = le_word [ptr (2 * i), ptr (2 * i + 1)]"

definition read_uint32 :: "raw_memory \<Rightarrow> nat \<Rightarrow> 32 word" where
  "read_uint32 ptr i = le_word [ptr (4 * i), ptr (4 * i + 1), ptr (4 * i + 2), ptr (4 * i + 3)]"

definition read_uint64 :: "raw_memory \<Rightarrow> nat \<Rightarrow> 64 word" where
  "read_uint64 ptr i =
     le_word [ptr (8 * i), ptr (8 * i + 1), ptr (8 * i + 2), ptr (8 * i + 3),
              ptr (8 * i + 4), ptr (8 * i + 5), ptr (8 * i + 6), ptr (8 * i + 7)]"

text \<open>A test fixture: the memory that holds the given bytes, and zeros after them.\<close>

definition bytes_at :: "8 word list \<Rightarrow> raw_memory" where
  "bytes_at bs = (\<lambda>a. if a < length bs then bs ! a else 0)"

section \<open>Doubles\<close>

text \<open>
  A \<^verbatim>\<open>double\<close> by its value: not-a-number, an infinity (\<open>True\<close> for the negative
  one) or a finite rational. \<open>double_of_bits\<close> decodes the IEEE 754 binary64 layout:
  sign bit 63, biased exponent in bits 52 to 62, fraction in bits 0 to 51.
\<close>

datatype t_double = DOUBLE_NAN | DOUBLE_INF bool | DOUBLE_FIN rat

definition double_of_bits :: "64 word \<Rightarrow> t_double" where
  "double_of_bits w =
     (let negative = bit w 63;
          e = unat (take_bit 11 (drop_bit 52 w));
          m = unat (take_bit 52 w)
      in if e = 2047 then (if m = 0 then DOUBLE_INF negative else DOUBLE_NAN)
         else
           let mag = (if e = 0 then of_nat m / 2 ^ 1074
                      else if 1075 \<le> e then of_nat ((2 ^ 52 + m) * 2 ^ (e - 1075))
                      else of_nat (2 ^ 52 + m) / 2 ^ (1075 - e))
           in DOUBLE_FIN (if negative then - mag else mag))"

definition read_double :: "raw_memory \<Rightarrow> nat \<Rightarrow> t_double" where
  "read_double ptr i = double_of_bits (read_uint64 ptr i)"

text \<open>The comparison \<^verbatim>\<open><\<close> of two doubles: false as soon as one side is not a number.\<close>

fun double_less :: "t_double \<Rightarrow> t_double \<Rightarrow> bool" where
  "double_less DOUBLE_NAN y = False"
| "double_less x DOUBLE_NAN = False"
| "double_less (DOUBLE_INF n) (DOUBLE_INF m) = (n \<and> \<not> m)"
| "double_less (DOUBLE_INF n) (DOUBLE_FIN y) = n"
| "double_less (DOUBLE_FIN x) (DOUBLE_INF m) = (\<not> m)"
| "double_less (DOUBLE_FIN x) (DOUBLE_FIN y) = (x < y)"

text \<open>
  Conversion of an integer to \<^verbatim>\<open>double\<close>: exact up to 53 significant bits, rounded to
  the nearest representable value (ties to the even one) beyond.
\<close>

definition round_to_53 :: "int \<Rightarrow> int" where
  "round_to_53 x =
     (let a = \<bar>x\<bar>; k = floorlog 2 (nat a) - 53
      in if k = 0 then x
         else
           let q = a div 2 ^ k; r = a mod 2 ^ k;
               up = (2 ^ k < 2 * r \<or> (2 * r = 2 ^ k \<and> odd q))
           in sgn x * ((if up then q + 1 else q) * 2 ^ k))"

definition double_of_int :: "int \<Rightarrow> t_double" where
  "double_of_int x = DOUBLE_FIN (of_int (round_to_53 x))"

text \<open>
  \<^verbatim>\<open>npy_isnan\<close> is numpy's macro. On a \<^verbatim>\<open>double\<close> it is true exactly for
  not-a-number; the code also applies it to a \<^verbatim>\<open>std::int64_t\<close>, which C++ converts to
  \<^verbatim>\<open>double\<close> first.
\<close>

definition npy_isnan :: "t_double \<Rightarrow> bool" where
  "npy_isnan d = (d = DOUBLE_NAN)"

section \<open>The destination column store\<close>

text \<open>
  Modelled from the spec: the classes \<^verbatim>\<open>t_column\<close> and \<^verbatim>\<open>t_data_table\<close> are
  declared and implemented outside \<^verbatim>\<open>numpy.cpp\<close>. The spec gives the store these
  operations: \<open>addColumn(name, type, certain)\<close>, \<open>getColumn(name)\<close>,
  \<open>cloneColumn(srcName, dstName)\<close>, \<open>promoteColumn(name, newType, fromRow,
  copyExisting)\<close> (rebinds the type; the rows before \<open>fromRow\<close> are preserved per
  \<open>copyExisting\<close>), and on a column \<open>size()\<close>, \<open>setNth(row, value)\<close>,
  \<open>unset(row)\<close>, \<open>clear(row)\<close> and \<open>fillValidityAllPresent()\<close>; a row is marked
  absent by \<open>clear\<close> (absent from the start) or by \<open>unset\<close> (present before, absent
  now).

  A stored value carries the C++ type it was written with. A row is a stored value and
  its mark; marking a row absent leaves the stored value alone.
\<close>

datatype t_scalar =
    S_NONE
  | S_UINT8 "8 word" | S_UINT16 "16 word" | S_UINT32 "32 word" | S_UINT64 "64 word"
  | S_INT8 "8 word" | S_INT16 "16 word" | S_INT32 "32 word" | S_INT64 "64 word"
  | S_FLOAT32 "32 word"
  | S_FLOAT64 t_double
  | S_BOOL bool
  | S_DATE "32 word" "32 word" "32 word"
  | S_STR string

datatype t_status = ROW_PRESENT | ROW_CLEARED | ROW_UNSET

record t_column =
  col_dtype :: t_dtype
  col_rows :: "(t_scalar \<times> t_status) list"

definition col_size :: "t_column \<Rightarrow> nat" where
  "col_size c = length (col_rows c)"

text \<open>A row index at or past \<open>size()\<close> addresses no row of the column.\<close>

definition set_nth :: "nat \<Rightarrow> t_scalar \<Rightarrow> t_column \<Rightarrow> t_column" where
  "set_nth i v c = c\<lparr>col_rows := (col_rows c)[i := (v, ROW_PRESENT)]\<rparr>"

definition mark_row :: "t_status \<Rightarrow> nat \<Rightarrow> t_column \<Rightarrow> t_column" where
  "mark_row s i c = c\<lparr>col_rows := (col_rows c)[i := (fst (col_rows c ! i), s)]\<rparr>"

definition unset :: "nat \<Rightarrow> t_column \<Rightarrow> t_column" where
  "unset i c = mark_row ROW_UNSET i c"

definition clear :: "nat \<Rightarrow> t_column \<Rightarrow> t_column" where
  "clear i c = mark_row ROW_CLEARED i c"

definition valid_raw_fill :: "t_column \<Rightarrow> t_column" where
  "valid_raw_fill c = c\<lparr>col_rows := map (\<lambda>r. (fst r, ROW_PRESENT)) (col_rows c)\<rparr>"

text \<open>
  The table: its columns by name, and its row count. A column handle
  (\<^verbatim>\<open>std::shared_ptr<t_column>\<close>) is the name under which the table holds the column:
  a write through the handle is a write to that column of the table. The code fetches
  the handle again (\<^verbatim>\<open>col = tbl.get_column(name)\<close>) after every promotion, the one
  operation that replaces a column.
\<close>

record t_data_table =
  tbl_columns :: "string \<Rightarrow> t_column option"
  tbl_size :: nat

definition upd_col :: "string \<Rightarrow> (t_column \<Rightarrow> t_column) \<Rightarrow> t_data_table \<Rightarrow> t_data_table" where
  "upd_col h f tbl =
     (case tbl_columns tbl h of
        None \<Rightarrow> tbl
      | Some c \<Rightarrow> tbl\<lparr>tbl_columns := (tbl_columns tbl)(h \<mapsto> f c)\<rparr>)"

definition via_handle ::
  "string \<Rightarrow> (t_column \<Rightarrow> error + t_column) \<Rightarrow> t_data_table \<Rightarrow> error + t_data_table" where
  "via_handle h f tbl =
     (case tbl_columns tbl h of
        None \<Rightarrow> Inl (NoSuchColumn h)
      | Some c \<Rightarrow>
          (case f c of
             Inl e \<Rightarrow> Inl e
           | Inr c' \<Rightarrow> Inr (tbl\<lparr>tbl_columns := (tbl_columns tbl)(h \<mapsto> c')\<rparr>)))"

definition new_column :: "t_dtype \<Rightarrow> nat \<Rightarrow> t_column" where
  "new_column dtype n = \<lparr>col_dtype = dtype, col_rows = replicate n (S_NONE, ROW_CLEARED)\<rparr>"

definition add_column :: "t_data_table \<Rightarrow> string \<Rightarrow> t_dtype \<Rightarrow> bool \<Rightarrow> t_data_table \<times> string" where
  "add_column tbl name dtype certain =
     (tbl\<lparr>tbl_columns := (tbl_columns tbl)(name \<mapsto> new_column dtype (tbl_size tbl))\<rparr>, name)"

definition get_column :: "t_data_table \<Rightarrow> string \<Rightarrow> error + string" where
  "get_column tbl name =
     (case tbl_columns tbl name of None \<Rightarrow> Inl (NoSuchColumn name) | Some c \<Rightarrow> Inr name)"

definition clone_column :: "t_data_table \<Rightarrow> string \<Rightarrow> string \<Rightarrow> error + t_data_table" where
  "clone_column tbl src dst =
     (case tbl_columns tbl src of
        None \<Rightarrow> Inl (NoSuchColumn src)
      | Some c \<Rightarrow> Inr (tbl\<lparr>tbl_columns := (tbl_columns tbl)(dst \<mapsto> c)\<rparr>))"

text \<open>
  Promotion keeps a stored integer's numeric value when the new type is 64-bit float;
  a row that is not kept starts over, absent.
\<close>

fun promote_scalar :: "t_dtype \<Rightarrow> t_scalar \<Rightarrow> t_scalar" where
  "promote_scalar DTYPE_FLOAT64 (S_INT32 w) = S_FLOAT64 (double_of_int (sint w))"
| "promote_scalar new_dtype v = v"

fun promote_rows ::
  "t_dtype \<Rightarrow> nat \<Rightarrow> bool \<Rightarrow> nat \<Rightarrow> (t_scalar \<times> t_status) list \<Rightarrow> (t_scalar \<times> t_status) list" where
  "promote_rows new_dtype from_row copy_existing k [] = []"
| "promote_rows new_dtype from_row copy_existing k (r # rs) =
     (if k < from_row \<and> copy_existing then (promote_scalar new_dtype (fst r), snd r)
      else (S_NONE, ROW_CLEARED))
     # promote_rows new_dtype from_row copy_existing (Suc k) rs"

definition promote_col :: "t_dtype \<Rightarrow> nat \<Rightarrow> bool \<Rightarrow> t_column \<Rightarrow> t_column" where
  "promote_col new_dtype from_row copy_existing c =
     \<lparr>col_dtype = new_dtype,
      col_rows = promote_rows new_dtype from_row copy_existing 0 (col_rows c)\<rparr>"

definition promote_column ::
  "t_data_table \<Rightarrow> string \<Rightarrow> t_dtype \<Rightarrow> nat \<Rightarrow> bool \<Rightarrow> t_data_table" where
  "promote_column tbl name new_dtype from_row copy_existing =
     upd_col name (promote_col new_dtype from_row copy_existing) tbl"

section \<open>The source accessor and the loader\<close>

text \<open>
  What the Python accessor gives back. \<^verbatim>\<open>_get_numpy_column(name, type)\<close> is a
  dictionary with the keys \<^verbatim>\<open>array\<close> and \<^verbatim>\<open>mask\<close>; \<open>nc_array\<close> is \<open>None\<close> when
  \<^verbatim>\<open>py::array::ensure\<close> yields no array. \<^verbatim>\<open>marshal(cidx, i, type)\<close> is a Python
  object: \<^verbatim>\<open>None\<close>, a string (here already in the byte encoding that
  \<^verbatim>\<open>converter.to_bytes\<close> produces), a boolean, a dictionary of date components, or
  anything else.
\<close>

datatype py_object =
    PY_NONE
  | PY_STR string
  | PY_BOOL bool
  | PY_DICT "(string \<times> 32 word) list"
  | PY_OBJECT

record numpy_column =
  nc_array :: "raw_memory option"
  nc_mask :: "64 word list"

record t_accessor =
  get_numpy_column :: "string \<Rightarrow> t_dtype \<Rightarrow> numpy_column"
  marshal :: "nat \<Rightarrow> nat \<Rightarrow> t_dtype \<Rightarrow> py_object"

record NumpyLoader =
  m_init :: bool
  m_accessor :: t_accessor
  m_names :: "string list"
  m_types :: "t_dtype list"

definition is_none :: "py_object \<Rightarrow> bool" where
  "is_none item = (item = PY_NONE)"

fun cast_wstring :: "py_object \<Rightarrow> error + string" where
  "cast_wstring (PY_STR s) = Inr s"
| "cast_wstring item = Inl CastError"

fun cast_bool :: "py_object \<Rightarrow> error + bool" where
  "cast_bool (PY_BOOL b) = Inr b"
| "cast_bool item = Inl CastError"

fun cast_map :: "py_object \<Rightarrow> error + (string \<times> 32 word) list" where
  "cast_map (PY_DICT d) = Inr d"
| "cast_map item = Inl CastError"

text \<open>\<^verbatim>\<open>std::map::operator[]\<close>: a missing key reads as the default value, zero.\<close>

definition map_at :: "(string \<times> 32 word) list \<Rightarrow> string \<Rightarrow> 32 word" where
  "map_at d k = (case map_of d k of None \<Rightarrow> 0 | Some v \<Rightarrow> v)"

section \<open>copy\_array\<close>

text \<open>
  \<^verbatim>\<open>copy_array_helper<T>\<close> copies \<^verbatim>\<open>dest->size()\<close> elements of type \<open>T\<close> from the
  source to the column's storage, from row \<open>offset\<close> on; the marks of the rows are
  not touched. \<open>rd\<close> reads element \<open>k\<close> of the source as a \<open>T\<close>.
\<close>

fun copy_rows ::
  "(nat \<Rightarrow> t_scalar) \<Rightarrow> nat \<Rightarrow> nat list \<Rightarrow> (t_scalar \<times> t_status) list \<Rightarrow> (t_scalar \<times> t_status) list" where
  "copy_rows rd offset [] rows = rows"
| "copy_rows rd offset (k # ks) rows =
     copy_rows rd offset ks (rows[offset + k := (rd k, snd (rows ! (offset + k)))])"

definition copy_array_helper :: "(nat \<Rightarrow> t_scalar) \<Rightarrow> t_column \<Rightarrow> nat \<Rightarrow> t_column" where
  "copy_array_helper rd dest offset =
     dest\<lparr>col_rows := copy_rows rd offset [0..<col_size dest] (col_rows dest)\<rparr>"

definition copy_array ::
  "NumpyLoader \<Rightarrow> raw_memory \<Rightarrow> t_column \<Rightarrow> t_dtype \<Rightarrow> nat \<Rightarrow> error + (t_fill_status \<times> t_column)" where
  "copy_array ld src dest np_dtype offset =
     (if \<not> m_init ld then Inl NotInitialized
      else case np_dtype of
        DTYPE_UINT8 \<Rightarrow> Inr (FILL_SUCCEED, copy_array_helper (\<lambda>k. S_UINT8 (read_uint8 src k)) dest offset)
      | DTYPE_UINT16 \<Rightarrow> Inr (FILL_SUCCEED, copy_array_helper (\<lambda>k. S_UINT16 (read_uint16 src k)) dest offset)
      | DTYPE_UINT32 \<Rightarrow> Inr (FILL_SUCCEED, copy_array_helper (\<lambda>k. S_UINT32 (read_uint32 src k)) dest offset)
      | DTYPE_UINT64 \<Rightarrow> Inr (FILL_SUCCEED, copy_array_helper (\<lambda>k. S_UINT64 (read_uint64 src k)) dest offset)
      | DTYPE_INT8 \<Rightarrow> Inr (FILL_SUCCEED, copy_array_helper (\<lambda>k. S_INT8 (read_uint8 src k)) dest offset)
      | DTYPE_INT16 \<Rightarrow> Inr (FILL_SUCCEED, copy_array_helper (\<lambda>k. S_INT16 (read_uint16 src k)) dest offset)
      | DTYPE_INT32 \<Rightarrow> Inr (FILL_SUCCEED, copy_array_helper (\<lambda>k. S_INT32 (read_uint32 src k)) dest offset)
      | DTYPE_INT64 \<Rightarrow> Inr (FILL_SUCCEED, copy_array_helper (\<lambda>k. S_INT64 (read_uint64 src k)) dest offset)
      | DTYPE_FLOAT32 \<Rightarrow> Inr (FILL_SUCCEED, copy_array_helper (\<lambda>k. S_FLOAT32 (read_uint32 src k)) dest offset)
      | DTYPE_FLOAT64 \<Rightarrow> Inr (FILL_SUCCEED, copy_array_helper (\<lambda>k. S_FLOAT64 (read_double src k)) dest offset)
      | _ \<Rightarrow> Inr (FILL_FAIL, dest))"

section \<open>The iterative fills of one column\<close>

text \<open>
  Each loop \<^verbatim>\<open>for (auto i = 0; i < nrows; ++i)\<close> is a recursion over the row indices
  \<open>[0..<nrows]\<close>, with \<^verbatim>\<open>nrows = col->size()\<close> read once before the loop. (Column
  sizes stay below \<open>2^31\<close>, the range of the counter.)
\<close>

text \<open>
  \<^verbatim>\<open>fill_datetime_iter\<close>: \<^verbatim>\<open>std::int64_t item = ptr[i] * 1000\<close>, then
  \<^verbatim>\<open>npy_isnan(item)\<close> on the integer. The product wraps at 64 bits.
\<close>

fun fill_datetime_rows :: "raw_memory \<Rightarrow> bool \<Rightarrow> nat list \<Rightarrow> t_column \<Rightarrow> t_column" where
  "fill_datetime_rows ptr is_update [] col = col"
| "fill_datetime_rows ptr is_update (i # rest) col =
     (let item = read_uint64 ptr i * 1000
      in if npy_isnan (double_of_int (sint item))
         then fill_datetime_rows ptr is_update rest (if is_update then unset i col else clear i col)
         else fill_datetime_rows ptr is_update rest (set_nth i (S_INT64 item) col))"

definition fill_datetime_iter ::
  "NumpyLoader \<Rightarrow> raw_memory \<Rightarrow> t_column \<Rightarrow> string \<Rightarrow> t_dtype \<Rightarrow> t_dtype \<Rightarrow> nat \<Rightarrow> bool
     \<Rightarrow> error + t_column" where
  "fill_datetime_iter ld array col name np_dtype type cidx is_update =
     (if \<not> m_init ld then Inl NotInitialized
      else Inr (fill_datetime_rows array is_update [0..<col_size col] col))"

fun fill_date_rows ::
  "t_accessor \<Rightarrow> nat \<Rightarrow> t_dtype \<Rightarrow> bool \<Rightarrow> nat list \<Rightarrow> t_column \<Rightarrow> error + t_column" where
  "fill_date_rows acc cidx type is_update [] col = Inr col"
| "fill_date_rows acc cidx type is_update (i # rest) col =
     (let item = marshal acc cidx i type
      in if is_none item
         then fill_date_rows acc cidx type is_update rest (if is_update then unset i col else clear i col)
         else
           (case cast_map item of
              Inl e \<Rightarrow> Inl e
            | Inr date_components \<Rightarrow>
                fill_date_rows acc cidx type is_update rest
                  (set_nth i (S_DATE (map_at date_components ''year'')
                                     (map_at date_components ''month'')
                                     (map_at date_components ''day'')) col)))"

definition fill_date_iter ::
  "NumpyLoader \<Rightarrow> raw_memory \<Rightarrow> t_column \<Rightarrow> string \<Rightarrow> t_dtype \<Rightarrow> t_dtype \<Rightarrow> nat \<Rightarrow> bool
     \<Rightarrow> error + t_column" where
  "fill_date_iter ld array col name np_dtype type cidx is_update =
     (if \<not> m_init ld then Inl NotInitialized
      else fill_date_rows (m_accessor ld) cidx type is_update [0..<col_size col] col)"

fun fill_string_rows ::
  "t_accessor \<Rightarrow> nat \<Rightarrow> t_dtype \<Rightarrow> bool \<Rightarrow> nat list \<Rightarrow> t_column \<Rightarrow> error + t_column" where
  "fill_string_rows acc cidx type is_update [] col = Inr col"
| "fill_string_rows acc cidx type is_update (i # rest) col =
     (let item = marshal acc cidx i type
      in if is_none item
         then fill_string_rows acc cidx type is_update rest (if is_update then unset i col else clear i col)
         else
           (case cast_wstring item of
              Inl e \<Rightarrow> Inl e
            | Inr elem \<Rightarrow> fill_string_rows acc cidx type is_update rest (set_nth i (S_STR elem) col)))"

definition fill_string_iter ::
  "NumpyLoader \<Rightarrow> raw_memory \<Rightarrow> t_column \<Rightarrow> string \<Rightarrow> t_dtype \<Rightarrow> t_dtype \<Rightarrow> nat \<Rightarrow> bool
     \<Rightarrow> error + t_column" where
  "fill_string_iter ld array col name np_dtype type cidx is_update =
     (if \<not> m_init ld then Inl NotInitialized
      else fill_string_rows (m_accessor ld) cidx type is_update [0..<col_size col] col)"

fun fill_bool_rows ::
  "t_accessor \<Rightarrow> nat \<Rightarrow> t_dtype \<Rightarrow> bool \<Rightarrow> nat list \<Rightarrow> t_column \<Rightarrow> error + t_column" where
  "fill_bool_rows acc cidx type is_update [] col = Inr col"
| "fill_bool_rows acc cidx type is_update (i # rest) col =
     (let item = marshal acc cidx i type
      in if is_none item
         then fill_bool_rows acc cidx type is_update rest (if is_update then unset i col else clear i col)
         else
           (case cast_bool item of
              Inl e \<Rightarrow> Inl e
            | Inr b \<Rightarrow> fill_bool_rows acc cidx type is_update rest (set_nth i (S_BOOL b) col)))"

definition fill_bool_iter ::
  "NumpyLoader \<Rightarrow> raw_memory \<Rightarrow> t_column \<Rightarrow> string \<Rightarrow> t_dtype \<Rightarrow> t_dtype \<Rightarrow> nat \<Rightarrow> bool
     \<Rightarrow> error + t_column" where
  "fill_bool_iter ld array col name np_dtype type cidx is_update =
     (if \<not> m_init ld then Inl NotInitialized
      else fill_bool_rows (m_accessor ld) cidx type is_update [0..<col_size col] col)"

section \<open>The numeric fill and its promotions\<close>

text \<open>
  One turn of the loop of \<^verbatim>\<open>fill_numeric_iter\<close>. The loop carries the table, the
  column handle \<^verbatim>\<open>col\<close> and the local \<^verbatim>\<open>type\<close>, which the promotion to float
  reassigns; \<open>NEXT\<close> goes on to the next row with them, \<open>RETURN\<close> is the
  \<^verbatim>\<open>return\<close> after the delegation to the string fill.
\<close>

datatype numeric_step = NEXT t_data_table string t_dtype | RETURN t_data_table

definition promote_to_string ::
  "NumpyLoader \<Rightarrow> raw_memory \<Rightarrow> string \<Rightarrow> t_dtype \<Rightarrow> nat \<Rightarrow> bool \<Rightarrow> nat \<Rightarrow> t_data_table
     \<Rightarrow> error + numeric_step" where
  "promote_to_string ld array name np_dtype cidx is_update i tbl =
     (let tbl1 = promote_column tbl name DTYPE_STR i False
      in case get_column tbl1 name of
           Inl e \<Rightarrow> Inl e
         | Inr col1 \<Rightarrow>
             (case via_handle col1
                     (\<lambda>c. fill_string_iter ld array c name np_dtype DTYPE_STR cidx is_update) tbl1 of
                Inl e \<Rightarrow> Inl e
              | Inr tbl2 \<Rightarrow> Inr (RETURN tbl2)))"

definition fill_numeric_row ::
  "NumpyLoader \<Rightarrow> raw_memory \<Rightarrow> string \<Rightarrow> t_dtype \<Rightarrow> nat \<Rightarrow> bool \<Rightarrow> nat
     \<Rightarrow> t_data_table \<Rightarrow> string \<Rightarrow> t_dtype \<Rightarrow> error + numeric_step" where
  "fill_numeric_row ld ptr name np_dtype cidx is_update i tbl col type =
     (if npy_isnan (read_double ptr i)
      then Inr (NEXT (if is_update then upd_col col (unset i) tbl else upd_col col (clear i) tbl)
                  col type)
      else case type of
        DTYPE_UINT8 \<Rightarrow> Inr (NEXT (upd_col col (set_nth i (S_UINT8 (read_uint8 ptr i))) tbl) col type)
      | DTYPE_UINT16 \<Rightarrow> Inr (NEXT (upd_col col (set_nth i (S_UINT16 (read_uint16 ptr i))) tbl) col type)
      | DTYPE_UINT32 \<Rightarrow> Inr (NEXT (upd_col col (set_nth i (S_UINT32 (read_uint32 ptr i))) tbl) col type)
      | DTYPE_UINT64 \<Rightarrow> Inr (NEXT (upd_col col (set_nth i (S_UINT64 (read_uint64 ptr i))) tbl) col type)
      | DTYPE_INT8 \<Rightarrow> Inr (NEXT (upd_col col (set_nth i (S_INT8 (read_uint8 ptr i))) tbl) col type)
      | DTYPE_INT16 \<Rightarrow> Inr (NEXT (upd_col col (set_nth i (S_INT16 (read_uint16 ptr i))) tbl) col type)
      | DTYPE_INT32 \<Rightarrow>
          (let item = read_double ptr i
           in if double_less (double_of_int 2147483647) item
                 \<or> double_less item (double_of_int (- 2147483648))
              then
                (let tbl1 = promote_column tbl name DTYPE_FLOAT64 i True
                 in case get_column tbl1 name of
                      Inl e \<Rightarrow> Inl e
                    | Inr col1 \<Rightarrow>
                        Inr (NEXT (upd_col col1 (set_nth i (S_FLOAT64 item)) tbl1) col1 DTYPE_FLOAT64))
              else if np_dtype = DTYPE_INT64
              then Inr (NEXT (upd_col col (set_nth i (S_INT32 (ucast (read_uint64 ptr i)))) tbl) col type)
              else Inr (NEXT (upd_col col (set_nth i (S_INT32 (read_uint32 ptr i))) tbl) col type))
      | DTYPE_INT64 \<Rightarrow>
          (let item = read_uint64 ptr i
           in if npy_isnan (double_of_int (sint item))
              then promote_to_string ld ptr name np_dtype cidx is_update i tbl
              else Inr (NEXT (upd_col col (set_nth i (S_INT64 item)) tbl) col type))
      | DTYPE_FLOAT32 \<Rightarrow> Inr (NEXT (upd_col col (set_nth i (S_FLOAT32 (read_uint32 ptr i))) tbl) col type)
      | DTYPE_FLOAT64 \<Rightarrow>
          (let item = read_double ptr i
           in if npy_isnan item
              then promote_to_string ld ptr name np_dtype cidx is_update i tbl
              else if np_dtype = DTYPE_INT64
              then Inr (NEXT (upd_col col
                                (set_nth i (S_FLOAT64 (double_of_int (sint (read_uint64 ptr i))))) tbl)
                          col type)
              else Inr (NEXT (upd_col col (set_nth i (S_FLOAT64 item)) tbl) col type))
      | _ \<Rightarrow> Inr (NEXT tbl col type))"

fun fill_numeric_rows ::
  "NumpyLoader \<Rightarrow> raw_memory \<Rightarrow> string \<Rightarrow> t_dtype \<Rightarrow> nat \<Rightarrow> bool \<Rightarrow> nat list
     \<Rightarrow> t_data_table \<Rightarrow> string \<Rightarrow> t_dtype \<Rightarrow> error + t_data_table" where
  "fill_numeric_rows ld ptr name np_dtype cidx is_update [] tbl col type = Inr tbl"
| "fill_numeric_rows ld ptr name np_dtype cidx is_update (i # rest) tbl col type =
     (case fill_numeric_row ld ptr name np_dtype cidx is_update i tbl col type of
        Inl e \<Rightarrow> Inl e
      | Inr (RETURN tbl') \<Rightarrow> Inr tbl'
      | Inr (NEXT tbl' col' type') \<Rightarrow>
          fill_numeric_rows ld ptr name np_dtype cidx is_update rest tbl' col' type')"

definition fill_numeric_iter ::
  "NumpyLoader \<Rightarrow> raw_memory \<Rightarrow> t_data_table \<Rightarrow> string \<Rightarrow> string \<Rightarrow> t_dtype \<Rightarrow> t_dtype \<Rightarrow> nat
     \<Rightarrow> bool \<Rightarrow> error + t_data_table" where
  "fill_numeric_iter ld array tbl col name np_dtype type cidx is_update =
     (if \<not> m_init ld then Inl NotInitialized
      else case tbl_columns tbl col of
        None \<Rightarrow> Inl (NoSuchColumn col)
      | Some c \<Rightarrow>
          fill_numeric_rows ld array name np_dtype cidx is_update [0..<col_size c] tbl col type)"

section \<open>fill\_column\_iter, fill\_column and fill\_table\<close>

definition fill_column_iter ::
  "NumpyLoader \<Rightarrow> raw_memory \<Rightarrow> t_data_table \<Rightarrow> string \<Rightarrow> string \<Rightarrow> t_dtype \<Rightarrow> t_dtype \<Rightarrow> nat
     \<Rightarrow> bool \<Rightarrow> error + t_data_table" where
  "fill_column_iter ld array tbl col name np_dtype type cidx is_update =
     (if \<not> m_init ld then Inl NotInitialized
      else case type of
        DTYPE_TIME \<Rightarrow>
          via_handle col (\<lambda>c. fill_datetime_iter ld array c name np_dtype type cidx is_update) tbl
      | DTYPE_DATE \<Rightarrow>
          via_handle col (\<lambda>c. fill_date_iter ld array c name np_dtype type cidx is_update) tbl
      | DTYPE_BOOL \<Rightarrow>
          via_handle col (\<lambda>c. fill_bool_iter ld array c name np_dtype type cidx is_update) tbl
      | DTYPE_STR \<Rightarrow>
          via_handle col (\<lambda>c. fill_string_iter ld array c name np_dtype type cidx is_update) tbl
      | _ \<Rightarrow> fill_numeric_iter ld array tbl col name np_dtype type cidx is_update)"

text \<open>\<^verbatim>\<open>std::find\<close> and \<^verbatim>\<open>std::distance\<close>: the position of the first match.\<close>

fun find_index_of :: "string \<Rightarrow> string list \<Rightarrow> nat option" where
  "find_index_of name [] = None"
| "find_index_of name (n # ns) =
     (if n = name then Some 0
      else case find_index_of name ns of None \<Rightarrow> None | Some k \<Rightarrow> Some (Suc k))"

text \<open>
  The loop over the null positions after a successful copy: \<^verbatim>\<open>ptr[i]\<close> is
  a \<^verbatim>\<open>std::uint64_t\<close> row index.
\<close>

fun apply_mask :: "bool \<Rightarrow> 64 word list \<Rightarrow> t_column \<Rightarrow> t_column" where
  "apply_mask is_update [] col = col"
| "apply_mask is_update (idx # rest) col =
     apply_mask is_update rest
       (if is_update then unset (unat idx) col else clear (unat idx) col)"

definition fill_column ::
  "NumpyLoader \<Rightarrow> t_data_table \<Rightarrow> string \<Rightarrow> string \<Rightarrow> t_dtype \<Rightarrow> nat \<Rightarrow> bool
     \<Rightarrow> error + t_data_table" where
  "fill_column ld tbl col name type cidx is_update =
     (if \<not> m_init ld then Inl NotInitialized
      else case find_index_of name (m_names ld) of
        None \<Rightarrow> Inl (UnknownColumn name)
      | Some nidx \<Rightarrow>
          (let source = get_numpy_column (m_accessor ld) name type
           in case nc_array source of
                None \<Rightarrow> Inl (NotANumpyArray name)
              | Some array \<Rightarrow>
                  (let np_dtype = m_types ld ! nidx
                   in if np_dtype = DTYPE_INT64 \<and> (type = DTYPE_INT32 \<or> type = DTYPE_FLOAT64)
                      then fill_column_iter ld array tbl col name np_dtype type cidx is_update
                      else
                        (case tbl_columns tbl col of
                           None \<Rightarrow> Inl (NoSuchColumn col)
                         | Some c \<Rightarrow>
                             (case copy_array ld array c np_dtype 0 of
                                Inl e \<Rightarrow> Inl e
                              | Inr (FILL_SUCCEED, c1) \<Rightarrow>
                                  Inr (tbl\<lparr>tbl_columns := (tbl_columns tbl)
                                         (col \<mapsto> apply_mask is_update (nc_mask source)
                                                  (valid_raw_fill c1))\<rparr>)
                              | Inr (FILL_FAIL, c1) \<Rightarrow>
                                  fill_column_iter ld array
                                    (tbl\<lparr>tbl_columns := (tbl_columns tbl)(col \<mapsto> c1)\<rparr>)
                                    col name np_dtype type cidx is_update)))))"

text \<open>
  Modelled from the spec: the class \<^verbatim>\<open>t_schema\<close> is declared outside
  \<^verbatim>\<open>numpy.cpp\<close>; the spec has it as the ordered mapping from column name to declared
  type, so \<^verbatim>\<open>columns()\<close> and \<^verbatim>\<open>types()\<close> are the two projections of one list.
\<close>

type_synonym t_schema = "(string \<times> t_dtype) list"

text \<open>
  The first loop of \<^verbatim>\<open>fill_table\<close>, from column index \<open>cidx\<close> on; it returns the
  table and the flag \<^verbatim>\<open>implicit_index\<close>.
\<close>

fun fill_table_columns ::
  "NumpyLoader \<Rightarrow> bool \<Rightarrow> nat \<Rightarrow> t_schema \<Rightarrow> bool \<Rightarrow> t_data_table
     \<Rightarrow> error + (t_data_table \<times> bool)" where
  "fill_table_columns ld is_update cidx [] implicit_index tbl = Inr (tbl, implicit_index)"
| "fill_table_columns ld is_update cidx ((name, type) # rest) implicit_index tbl =
     (if name = ''__INDEX__'' then
        (case add_column tbl ''psp_pkey'' type True of
           (tbl1, pkey_col_sptr) \<Rightarrow>
             (case fill_column ld tbl1 pkey_col_sptr ''__INDEX__'' type cidx is_update of
                Inl e \<Rightarrow> Inl e
              | Inr tbl2 \<Rightarrow>
                  (case clone_column tbl2 ''psp_pkey'' ''psp_okey'' of
                     Inl e \<Rightarrow> Inl e
                   | Inr tbl3 \<Rightarrow> fill_table_columns ld is_update (Suc cidx) rest True tbl3)))
      else
        (case get_column tbl name of
           Inl e \<Rightarrow> Inl e
         | Inr col \<Rightarrow>
             (case fill_column ld tbl col name type cidx is_update of
                Inl e \<Rightarrow> Inl e
              | Inr tbl1 \<Rightarrow> fill_table_columns ld is_update (Suc cidx) rest implicit_index tbl1)))"

text \<open>
  The row-number loop: \<^verbatim>\<open>(ridx + offset) % limit\<close> on \<^verbatim>\<open>std::uint32_t\<close>, stored
  with \<^verbatim>\<open>set_nth<std::int32_t>\<close>. The sum wraps at 32 bits; the remainder by zero
  stops the call. (Table sizes stay below \<open>2^32\<close>, the range of the counter.)
\<close>

fun fill_index_rows ::
  "32 word \<Rightarrow> 32 word \<Rightarrow> string \<Rightarrow> string \<Rightarrow> nat list \<Rightarrow> t_data_table \<Rightarrow> error + t_data_table" where
  "fill_index_rows offset limit key_col okey_col [] tbl = Inr tbl"
| "fill_index_rows offset limit key_col okey_col (ridx # rest) tbl =
     (if limit = 0 then Inl RemainderByZero
      else
        fill_index_rows offset limit key_col okey_col rest
          (upd_col okey_col (set_nth ridx (S_INT32 ((word_of_nat ridx + offset) mod limit)))
             (upd_col key_col (set_nth ridx (S_INT32 ((word_of_nat ridx + offset) mod limit))) tbl)))"

definition fill_table ::
  "NumpyLoader \<Rightarrow> t_data_table \<Rightarrow> t_schema \<Rightarrow> string \<Rightarrow> 32 word \<Rightarrow> 32 word \<Rightarrow> bool
     \<Rightarrow> error + t_data_table" where
  "fill_table ld tbl input_schema index offset limit is_update =
     (if \<not> m_init ld then Inl NotInitialized
      else case fill_table_columns ld is_update 0 input_schema False tbl of
        Inl e \<Rightarrow> Inl e
      | Inr (tbl1, implicit_index) \<Rightarrow>
          if \<not> implicit_index then
            (if index = [] then
               (case add_column tbl1 ''psp_pkey'' DTYPE_INT32 True of
                  (tbl2, key_col) \<Rightarrow>
                    (case add_column tbl2 ''psp_okey'' DTYPE_INT32 True of
                       (tbl3, okey_col) \<Rightarrow>
                         fill_index_rows offset limit key_col okey_col [0..<tbl_size tbl3] tbl3))
             else
               (case clone_column tbl1 index ''psp_pkey'' of
                  Inl e \<Rightarrow> Inl e
                | Inr tbl2 \<Rightarrow> clone_column tbl2 index ''psp_okey''))
          else Inr tbl1)"

section \<open>Vocabulary of the properties\<close>

text \<open>
  The ten fixed-width numeric element types: signed and unsigned integers of 8, 16, 32
  and 64 bits, and the floats of 32 and 64 bits.
\<close>

definition is_numeric_dtype :: "t_dtype \<Rightarrow> bool" where
  "is_numeric_dtype t =
     (t = DTYPE_UINT8 \<or> t = DTYPE_UINT16 \<or> t = DTYPE_UINT32 \<or> t = DTYPE_UINT64
      \<or> t = DTYPE_INT8 \<or> t = DTYPE_INT16 \<or> t = DTYPE_INT32 \<or> t = DTYPE_INT64
      \<or> t = DTYPE_FLOAT32 \<or> t = DTYPE_FLOAT64)"

text \<open>The mark that the flag \<^verbatim>\<open>is_update\<close> selects for an absent row.\<close>

definition absent_mark :: "bool \<Rightarrow> t_status" where
  "absent_mark is_update = (if is_update then ROW_UNSET else ROW_CLEARED)"

text \<open>What a call left in a column of the table, if it returned.\<close>

definition column_of :: "error + t_data_table \<Rightarrow> string \<Rightarrow> t_column option" where
  "column_of r h = (case r of Inl e \<Rightarrow> None | Inr tbl \<Rightarrow> tbl_columns tbl h)"

text \<open>
  Applying \<open>F\<close> to row \<open>i\<close> of a column: \<open>set_nth\<close>, \<open>unset\<close> and \<open>clear\<close> are
  instances of it.
\<close>

definition map_row :: "nat \<Rightarrow> (t_scalar \<times> t_status \<Rightarrow> t_scalar \<times> t_status) \<Rightarrow> t_column \<Rightarrow> t_column" where
  "map_row i F c = c\<lparr>col_rows := (col_rows c)[i := F (col_rows c ! i)]\<rparr>"

text \<open>
  A double greater than 2147483647 or less than -2147483648 (not-a-number is neither).
\<close>

definition outside_int32 :: "t_double \<Rightarrow> bool" where
  "outside_int32 d =
     (case d of
        DOUBLE_NAN \<Rightarrow> False
      | DOUBLE_INF negative \<Rightarrow> True
      | DOUBLE_FIN q \<Rightarrow> 2147483647 < q \<or> q < - 2147483648)"

text \<open>
  What the switch of \<open>fill_numeric_row\<close> stores at a row that is not absent and
  triggers no promotion, and the row it leaves: a row whose eight bytes read as
  not-a-number is marked absent and keeps its stored value.
\<close>

definition numeric_value :: "raw_memory \<Rightarrow> t_dtype \<Rightarrow> t_dtype \<Rightarrow> nat \<Rightarrow> t_scalar" where
  "numeric_value ptr np_dtype type i =
     (case type of
        DTYPE_UINT8 \<Rightarrow> S_UINT8 (read_uint8 ptr i)
      | DTYPE_UINT16 \<Rightarrow> S_UINT16 (read_uint16 ptr i)
      | DTYPE_UINT32 \<Rightarrow> S_UINT32 (read_uint32 ptr i)
      | DTYPE_UINT64 \<Rightarrow> S_UINT64 (read_uint64 ptr i)
      | DTYPE_INT8 \<Rightarrow> S_INT8 (read_uint8 ptr i)
      | DTYPE_INT16 \<Rightarrow> S_INT16 (read_uint16 ptr i)
      | DTYPE_INT32 \<Rightarrow>
          S_INT32 (if np_dtype = DTYPE_INT64 then ucast (read_uint64 ptr i) else read_uint32 ptr i)
      | DTYPE_INT64 \<Rightarrow> S_INT64 (read_uint64 ptr i)
      | DTYPE_FLOAT32 \<Rightarrow> S_FLOAT32 (read_uint32 ptr i)
      | DTYPE_FLOAT64 \<Rightarrow>
          S_FLOAT64 (if np_dtype = DTYPE_INT64 then double_of_int (sint (read_uint64 ptr i))
                     else read_double ptr i)
      | _ \<Rightarrow> S_NONE)"

definition numeric_row ::
  "raw_memory \<Rightarrow> t_dtype \<Rightarrow> t_dtype \<Rightarrow> bool \<Rightarrow> nat \<Rightarrow> t_scalar \<times> t_status \<Rightarrow> t_scalar \<times> t_status" where
  "numeric_row ptr np_dtype type is_update i =
     (\<lambda>r. if npy_isnan (read_double ptr i) then (fst r, absent_mark is_update)
          else if is_numeric_dtype type then (numeric_value ptr np_dtype type i, ROW_PRESENT)
          else r)"

text \<open>
  The words of the mismatch guard in the specification: the source element type is an
  integer type of more bits than the destination's numeric type has.
\<close>

definition integer_bits :: "t_dtype \<Rightarrow> nat option" where
  "integer_bits t =
     (case t of
        DTYPE_UINT8 \<Rightarrow> Some 8 | DTYPE_INT8 \<Rightarrow> Some 8
      | DTYPE_UINT16 \<Rightarrow> Some 16 | DTYPE_INT16 \<Rightarrow> Some 16
      | DTYPE_UINT32 \<Rightarrow> Some 32 | DTYPE_INT32 \<Rightarrow> Some 32
      | DTYPE_UINT64 \<Rightarrow> Some 64 | DTYPE_INT64 \<Rightarrow> Some 64
      | _ \<Rightarrow> None)"

definition numeric_bits :: "t_dtype \<Rightarrow> nat option" where
  "numeric_bits t =
     (case t of DTYPE_FLOAT32 \<Rightarrow> Some 32 | DTYPE_FLOAT64 \<Rightarrow> Some 64 | _ \<Rightarrow> integer_bits t)"

definition strictly_wider_integer :: "t_dtype \<Rightarrow> t_dtype \<Rightarrow> bool" where
  "strictly_wider_integer np_dtype type =
     (case integer_bits np_dtype of
        None \<Rightarrow> False
      | Some a \<Rightarrow> (case numeric_bits type of None \<Rightarrow> False | Some b \<Rightarrow> b < a))"

text \<open>
  Two tables with the same row count that agree on every column whose name is not in
  \<open>S\<close>.
\<close>

definition same_outside :: "string set \<Rightarrow> t_data_table \<Rightarrow> t_data_table \<Rightarrow> bool" where
  "same_outside S tbl tbl' =
     (tbl_size tbl' = tbl_size tbl \<and> (\<forall>x. x \<notin> S \<longrightarrow> tbl_columns tbl' x = tbl_columns tbl x))"

text \<open>
  The row that the row-number loop stores at index \<open>ridx\<close>, and the property that the
  two index columns exist and are the same column value.
\<close>

definition index_row :: "32 word \<Rightarrow> 32 word \<Rightarrow> nat \<Rightarrow> t_scalar \<times> t_status" where
  "index_row offset limit ridx = (S_INT32 ((word_of_nat ridx + offset) mod limit), ROW_PRESENT)"

definition keys_equal :: "t_data_table \<Rightarrow> bool" where
  "keys_equal tbl =
     (\<exists>c. tbl_columns tbl ''psp_pkey'' = Some c \<and> tbl_columns tbl ''psp_okey'' = Some c)"

text \<open>
  The condition, read off the row alone, under which an iterative fill marks row \<open>j\<close>
  absent: on the date, string and bool paths the cell marshals to \<^verbatim>\<open>None\<close>; on the
  numeric path the eight bytes of the element read as not-a-number.
\<close>

definition row_is_absent :: "NumpyLoader \<Rightarrow> raw_memory \<Rightarrow> t_dtype \<Rightarrow> nat \<Rightarrow> nat \<Rightarrow> bool" where
  "row_is_absent ld array type cidx j =
     (if type = DTYPE_DATE \<or> type = DTYPE_STR \<or> type = DTYPE_BOOL
      then is_none (marshal (m_accessor ld) cidx j type)
      else npy_isnan (read_double array j))"

section \<open>Examples: one source column, one table column\<close>

text \<open>
  A loader over one source column \<open>''a''\<close> of inferred type \<open>np_dtype\<close>, whose buffer
  holds the bytes \<open>bs\<close>, whose null positions are \<open>nulls\<close> and whose cells marshal
  to the objects \<open>cells\<close> (and to \<^verbatim>\<open>None\<close> past them); and a table of \<open>n\<close> rows with one fresh column \<open>''a''\<close>.
\<close>

definition example_loader ::
  "t_dtype \<Rightarrow> 8 word list \<Rightarrow> 64 word list \<Rightarrow> py_object list \<Rightarrow> NumpyLoader" where
  "example_loader np_dtype bs nulls cells =
     \<lparr>m_init = True,
      m_accessor = \<lparr>get_numpy_column = (\<lambda>name type. \<lparr>nc_array = Some (bytes_at bs), nc_mask = nulls\<rparr>),
                    marshal = (\<lambda>cidx i type. if i < length cells then cells ! i else PY_NONE)\<rparr>,
      m_names = [''a''],
      m_types = [np_dtype]\<rparr>"

definition example_table :: "t_dtype \<Rightarrow> nat \<Rightarrow> t_data_table" where
  "example_table dtype n =
     \<lparr>tbl_columns = (\<lambda>h. if h = ''a'' then Some (new_column dtype n) else None), tbl_size = n\<rparr>"

text \<open>
  A table of \<open>n\<close> rows with no column yet; and a loader over the two source columns
  \<open>''__INDEX__''\<close> and \<open>''psp_okey''\<close>, both of strings, whose cells marshal to
  \<open>''k''\<close> in the first column and to \<open>''x''\<close> in the second.
\<close>

definition example_empty_table :: "nat \<Rightarrow> t_data_table" where
  "example_empty_table n = \<lparr>tbl_columns = (\<lambda>h. None), tbl_size = n\<rparr>"

definition example_index_loader :: NumpyLoader where
  "example_index_loader =
     \<lparr>m_init = True,
      m_accessor = \<lparr>get_numpy_column = (\<lambda>name type. \<lparr>nc_array = Some (bytes_at []), nc_mask = []\<rparr>),
                    marshal = (\<lambda>cidx i type. PY_STR (if cidx = 0 then ''k'' else ''x''))\<rparr>,
      m_names = [''__INDEX__'', ''psp_okey''],
      m_types = [DTYPE_STR, DTYPE_STR]\<rparr>"

section \<open>copy\_array: the status depends on the source element type alone\<close>

lemma copy_rows_marks: "map snd (copy_rows rd offset ks rows) = map snd rows"
proof (induction ks arbitrary: rows)
  case Nil
  then show ?case by simp
next
  case (Cons k ks)
  have "map snd (rows[offset + k := (rd k, snd (rows ! (offset + k)))]) = map snd rows"
    by (cases "offset + k < length rows")
       (simp_all add: map_update list_update_same_conv list_update_beyond)
  with Cons show ?case by simp
qed

lemma copy_array_helper_marks:
  "map snd (col_rows (copy_array_helper rd dest offset)) = map snd (col_rows dest)"
  by (simp add: copy_array_helper_def copy_rows_marks)

lemma copy_array_helper_dtype:
  "col_dtype (copy_array_helper rd dest offset) = col_dtype dest"
  by (simp add: copy_array_helper_def)

lemma copy_array_ok:
  "m_init ld \<Longrightarrow> is_numeric_dtype np_dtype \<Longrightarrow>
   \<exists>dest'. copy_array ld src dest np_dtype offset = Inr (FILL_SUCCEED, dest')"
  by (cases np_dtype) (simp_all add: copy_array_def is_numeric_dtype_def)

lemma copy_array_fail:
  "m_init ld \<Longrightarrow> \<not> is_numeric_dtype np_dtype \<Longrightarrow>
   copy_array ld src dest np_dtype offset = Inr (FILL_FAIL, dest)"
  by (cases np_dtype) (simp_all add: copy_array_def is_numeric_dtype_def)

text \<open>
  Claim C8. On an initialised loader \<open>copy_array\<close> returns \<open>FILL_SUCCEED\<close> exactly
  when the source element type is one of the ten fixed-width numeric types, and
  \<open>FILL_FAIL\<close> for every other tag. The status is the same for every destination
  column, whatever its declared type; the function has no null-position argument, and
  the marks of the destination rows are as they were before the call.
\<close>

theorem copy_array_status:
  assumes "m_init ld"
  shows "\<exists>dest'. copy_array ld src dest np_dtype offset =
            Inr (if is_numeric_dtype np_dtype then FILL_SUCCEED else FILL_FAIL, dest')
          \<and> col_dtype dest' = col_dtype dest
          \<and> map snd (col_rows dest') = map snd (col_rows dest)"
  using assms
  by (cases np_dtype)
     (simp_all add: copy_array_def is_numeric_dtype_def copy_array_helper_marks
        copy_array_helper_dtype)

theorem copy_array_status_witness:
  "m_init (example_loader DTYPE_STR [] [] [])
   \<and> (\<exists>dest'. copy_array (example_loader DTYPE_STR [] [] []) (bytes_at [])
                  (new_column DTYPE_FLOAT64 2) DTYPE_STR 0 = Inr (FILL_FAIL, dest'))
   \<and> (\<exists>dest'. copy_array (example_loader DTYPE_STR [] [] []) (bytes_at [])
                  (new_column DTYPE_INT32 2) DTYPE_INT64 0 = Inr (FILL_SUCCEED, dest'))"
proof -
  have h: "m_init (example_loader DTYPE_STR [] [] [])"
    by (simp add: example_loader_def)
  from copy_array_status [OF h, of "bytes_at []" "new_column DTYPE_FLOAT64 2" DTYPE_STR 0]
       copy_array_status [OF h, of "bytes_at []" "new_column DTYPE_INT32 2" DTYPE_INT64 0]
  show ?thesis using h by (auto simp: is_numeric_dtype_def)
qed

section \<open>Rows of a column, columns of a table\<close>

lemma set_nth_map_row: "set_nth i v = map_row i (\<lambda>r. (v, ROW_PRESENT))"
  by (rule ext) (simp add: set_nth_def map_row_def)

lemma unset_map_row: "unset i = map_row i (\<lambda>r. (fst r, ROW_UNSET))"
  by (rule ext) (simp add: unset_def mark_row_def map_row_def)

lemma clear_map_row: "clear i = map_row i (\<lambda>r. (fst r, ROW_CLEARED))"
  by (rule ext) (simp add: clear_def mark_row_def map_row_def)

lemma mark_map_row:
  "(if is_update then unset i c else clear i c) = map_row i (\<lambda>r. (fst r, absent_mark is_update)) c"
  by (simp add: unset_map_row clear_map_row absent_mark_def)

lemma map_row_dtype [simp]: "col_dtype (map_row i F c) = col_dtype c"
  by (simp add: map_row_def)

lemma map_row_length [simp]: "length (col_rows (map_row i F c)) = length (col_rows c)"
  by (simp add: map_row_def)

lemma map_row_nth:
  "j < length (col_rows c) \<Longrightarrow>
   col_rows (map_row i F c) ! j = (if j = i then F (col_rows c ! j) else col_rows c ! j)"
  by (simp add: map_row_def nth_list_update)

lemma fold_map_row_dtype [simp]:
  "col_dtype (fold (\<lambda>i. map_row i (F i)) xs c) = col_dtype c"
  by (induction xs arbitrary: c) simp_all

lemma fold_map_row_length [simp]:
  "length (col_rows (fold (\<lambda>i. map_row i (F i)) xs c)) = length (col_rows c)"
  by (induction xs arbitrary: c) simp_all

lemma fold_map_row_nth:
  "distinct xs \<Longrightarrow> j < length (col_rows c) \<Longrightarrow>
   col_rows (fold (\<lambda>i. map_row i (F i)) xs c) ! j
     = (if j \<in> set xs then F j (col_rows c ! j) else col_rows c ! j)"
proof (induction xs arbitrary: c)
  case Nil
  then show ?case by simp
next
  case (Cons x xs)
  then show ?case by (auto simp: map_row_nth)
qed

lemma upd_col_upd_col: "upd_col h f (upd_col h g tbl) = upd_col h (\<lambda>c. f (g c)) tbl"
  by (simp add: upd_col_def split: option.splits)

lemma upd_col_id: "upd_col h (\<lambda>c. c) tbl = tbl"
  by (auto simp: upd_col_def map_upd_triv split: option.splits)

lemma upd_col_Some:
  "tbl_columns tbl h = Some c \<Longrightarrow>
   upd_col h f tbl = tbl\<lparr>tbl_columns := (tbl_columns tbl)(h \<mapsto> f c)\<rparr>"
  by (simp add: upd_col_def)

lemma double_of_int_exact: "\<bar>x\<bar> < 2 ^ 53 \<Longrightarrow> double_of_int x = DOUBLE_FIN (of_int x)"
proof -
  assume a: "\<bar>x\<bar> < 2 ^ 53"
  have "floorlog 2 (nat \<bar>x\<bar>) \<le> 53"
  proof (cases "nat \<bar>x\<bar> = 0")
    case True
    then show ?thesis by (simp add: floorlog_def)
  next
    case False
    then show ?thesis using a floorlog_le_iff [of 2 "nat \<bar>x\<bar>" 53] by auto
  qed
  then show ?thesis by (simp add: double_of_int_def round_to_53_def)
qed

lemma not_nan_of_int [simp]: "\<not> npy_isnan (double_of_int x)"
  by (simp add: npy_isnan_def double_of_int_def)


lemma outside_int32_iff:
  "(double_less (double_of_int 2147483647) item \<or> double_less item (double_of_int (- 2147483648)))
     = outside_int32 item"
  by (cases item) (simp_all add: outside_int32_def double_of_int_exact)

lemma outside_int32_not_nan: "outside_int32 item \<Longrightarrow> \<not> npy_isnan item"
  by (auto simp: outside_int32_def npy_isnan_def)

lemma map_row_same: "map_row i (\<lambda>r. r) = (\<lambda>c. c)"
  by (rule ext) (simp add: map_row_def)

lemma fill_numeric_row_plain:
  assumes "type = DTYPE_INT32 \<Longrightarrow> \<not> outside_int32 (read_double ptr i)"
  shows "fill_numeric_row ld ptr name np_dtype cidx is_update i tbl col type =
           Inr (NEXT (upd_col col (map_row i (numeric_row ptr np_dtype type is_update i)) tbl) col type)"
proof (cases "npy_isnan (read_double ptr i)")
  case True
  then show ?thesis
    by (simp add: fill_numeric_row_def numeric_row_def unset_map_row clear_map_row absent_mark_def)
next
  case False
  with assms show ?thesis
    by (cases type)
       (simp_all add: fill_numeric_row_def numeric_row_def numeric_value_def is_numeric_dtype_def
          set_nth_map_row outside_int32_iff Let_def map_row_same upd_col_id)
qed


lemma promote_rows_length [simp]:
  "length (promote_rows nd from_row cp k rows) = length rows"
  by (induction rows arbitrary: k) simp_all

lemma promote_rows_nth:
  "j < length rows \<Longrightarrow>
   promote_rows nd from_row cp k rows ! j =
     (if k + j < from_row \<and> cp then (promote_scalar nd (fst (rows ! j)), snd (rows ! j))
      else (S_NONE, ROW_CLEARED))"
proof (induction rows arbitrary: k j)
  case Nil
  then show ?case by simp
next
  case (Cons r rs)
  then show ?case by (cases j) simp_all
qed

lemma fill_numeric_rows_plain_append:
  assumes "\<And>i. i \<in> set xs \<Longrightarrow> type = DTYPE_INT32 \<Longrightarrow> \<not> outside_int32 (read_double ptr i)"
  shows "fill_numeric_rows ld ptr name np_dtype cidx is_update (xs @ ys) tbl col type =
           fill_numeric_rows ld ptr name np_dtype cidx is_update ys
             (upd_col col (fold (\<lambda>i. map_row i (numeric_row ptr np_dtype type is_update i)) xs) tbl)
             col type"
  using assms
proof (induction xs arbitrary: tbl)
  case Nil
  then show ?case by (simp add: upd_col_id id_def)
next
  case (Cons x xs)
  then show ?case by (simp add: fill_numeric_row_plain upd_col_upd_col comp_def)
qed

lemma fill_numeric_rows_plain:
  assumes "\<And>i. i \<in> set xs \<Longrightarrow> type = DTYPE_INT32 \<Longrightarrow> \<not> outside_int32 (read_double ptr i)"
  shows "fill_numeric_rows ld ptr name np_dtype cidx is_update xs tbl col type =
           Inr (upd_col col (fold (\<lambda>i. map_row i (numeric_row ptr np_dtype type is_update i)) xs) tbl)"
  using fill_numeric_rows_plain_append [of xs type ptr ld name np_dtype cidx is_update "[]" tbl col] assms
  by simp

lemma fill_numeric_row_trigger:
  assumes "outside_int32 (read_double ptr i)" and "tbl_columns tbl name = Some c"
  shows "fill_numeric_row ld ptr name np_dtype cidx is_update i tbl col DTYPE_INT32 =
           Inr (NEXT (upd_col name (\<lambda>c. set_nth i (S_FLOAT64 (read_double ptr i))
                                           (promote_col DTYPE_FLOAT64 i True c)) tbl)
                  name DTYPE_FLOAT64)"
  using assms outside_int32_not_nan [OF assms(1)]
  by (simp add: fill_numeric_row_def outside_int32_iff Let_def promote_column_def get_column_def
        upd_col_def)


lemma fill_numeric_iter_plain:
  assumes "m_init ld" and "tbl_columns tbl col = Some c"
      and "\<And>i. i < col_size c \<Longrightarrow> type = DTYPE_INT32 \<Longrightarrow> \<not> outside_int32 (read_double ptr i)"
  shows "fill_numeric_iter ld ptr tbl col name np_dtype type cidx is_update =
           Inr (tbl\<lparr>tbl_columns := (tbl_columns tbl)
                  (col \<mapsto> fold (\<lambda>i. map_row i (numeric_row ptr np_dtype type is_update i))
                            [0..<col_size c] c)\<rparr>)"
proof -
  have "fill_numeric_rows ld ptr name np_dtype cidx is_update [0..<col_size c] tbl col type =
          Inr (upd_col col (fold (\<lambda>i. map_row i (numeric_row ptr np_dtype type is_update i))
                              [0..<col_size c]) tbl)"
    by (rule fill_numeric_rows_plain) (use assms(3) in auto)
  then show ?thesis
    using assms(1,2) by (simp add: fill_numeric_iter_def upd_col_Some)
qed

section \<open>The promotion of a 32-bit-integer column to 64-bit float\<close>

lemma promote_col_dtype [simp]: "col_dtype (promote_col nd k cp c) = nd"
  by (simp add: promote_col_def)

lemma promote_col_length [simp]: "length (col_rows (promote_col nd k cp c)) = length (col_rows c)"
  by (simp add: promote_col_def)

lemma promote_col_nth:
  "j < length (col_rows c) \<Longrightarrow>
   col_rows (promote_col nd k cp c) ! j =
     (if j < k \<and> cp then (promote_scalar nd (fst (col_rows c ! j)), snd (col_rows c ! j))
      else (S_NONE, ROW_CLEARED))"
  by (simp add: promote_col_def promote_rows_nth)

lemma sint32_exact: "double_of_int (sint (w :: 32 word)) = DOUBLE_FIN (of_int (sint w))"
proof -
  have "- (2 ^ 31) \<le> sint w" "sint w < 2 ^ 31"
    using sint_ge [of w] sint_lt [of w] by simp_all
  then have "\<bar>sint w\<bar> < 2 ^ 53" by simp
  then show ?thesis by (rule double_of_int_exact)
qed

lemma fill_numeric_iter_trigger:
  assumes "m_init ld" and "tbl_columns tbl col = Some c" and "k < col_size c"
      and "outside_int32 (read_double ptr k)"
      and "\<forall>j<k. \<not> outside_int32 (read_double ptr j)"
  shows "fill_numeric_iter ld ptr tbl col col np_dtype DTYPE_INT32 cidx is_update =
           Inr (tbl\<lparr>tbl_columns := (tbl_columns tbl)
                  (col \<mapsto>
                     fold (\<lambda>i. map_row i (numeric_row ptr np_dtype DTYPE_FLOAT64 is_update i))
                       [Suc k..<col_size c]
                       (set_nth k (S_FLOAT64 (read_double ptr k))
                          (promote_col DTYPE_FLOAT64 k True
                             (fold (\<lambda>i. map_row i (numeric_row ptr np_dtype DTYPE_INT32 is_update i))
                                [0..<k] c))))\<rparr>)"
proof -
  let ?gI = "\<lambda>i. map_row i (numeric_row ptr np_dtype DTYPE_INT32 is_update i)"
  let ?gF = "\<lambda>i. map_row i (numeric_row ptr np_dtype DTYPE_FLOAT64 is_update i)"
  let ?n = "col_size c"
  have split: "[0..<?n] = [0..<k] @ (k # [Suc k..<?n])"
  proof -
    have "[0..<?n] = [0..<k] @ [k..<?n]"
      using assms(3) upt_add_eq_append [of 0 k "?n - k"] by simp
    then show ?thesis using assms(3) by (simp add: upt_conv_Cons)
  qed
  let ?tbl1 = "upd_col col (fold ?gI [0..<k]) tbl"
  have c1: "tbl_columns ?tbl1 col = Some (fold ?gI [0..<k] c)"
    using assms(2) by (simp add: upd_col_def)
  have "fill_numeric_rows ld ptr col np_dtype cidx is_update [0..<?n] tbl col DTYPE_INT32 =
          fill_numeric_rows ld ptr col np_dtype cidx is_update (k # [Suc k..<?n]) ?tbl1 col DTYPE_INT32"
    unfolding split by (rule fill_numeric_rows_plain_append) (use assms(5) in auto)
  also have "\<dots> = fill_numeric_rows ld ptr col np_dtype cidx is_update [Suc k..<?n]
                     (upd_col col (\<lambda>c. set_nth k (S_FLOAT64 (read_double ptr k))
                                          (promote_col DTYPE_FLOAT64 k True c)) ?tbl1)
                     col DTYPE_FLOAT64"
    by (simp add: fill_numeric_row_trigger [OF assms(4) c1])
  also have "\<dots> = Inr (upd_col col (fold ?gF [Suc k..<?n])
                         (upd_col col (\<lambda>c. set_nth k (S_FLOAT64 (read_double ptr k))
                                          (promote_col DTYPE_FLOAT64 k True c)) ?tbl1))"
    by (rule fill_numeric_rows_plain) simp
  finally show ?thesis
    using assms(1,2) by (simp add: fill_numeric_iter_def upd_col_upd_col upd_col_Some)
qed


text \<open>
  What the promotion does once the range test fires. In a fill of a 32-bit-integer
  column on the iterative numeric path (the handle \<open>col\<close> being the column that the
  table holds under the name of the fill), let \<open>k\<close> be the first row whose eight source
  bytes, read as a double, are greater than 2147483647 or less than -2147483648. The call
  returns; the column has become a 64-bit-float column of the same size; row \<open>k\<close> holds
  that double; every later row holds a double (the source element converted from
  \<^verbatim>\<open>std::int64_t\<close> when the source type is int64, the bytes read as a double
  otherwise) unless its bytes read as not-a-number, in which case it is marked absent;
  and every row before \<open>k\<close> that was written holds the double whose value is the
  32-bit integer that the loop had stored there.
\<close>

lemma range_test_promotes_to_float64:
  assumes "m_init ld" and "tbl_columns tbl col = Some c" and "k < col_size c"
      and "outside_int32 (read_double ptr k)"
      and "\<forall>j<k. \<not> outside_int32 (read_double ptr j)"
  shows "\<exists>c'. fill_numeric_iter ld ptr tbl col col np_dtype DTYPE_INT32 cidx is_update =
                 Inr (tbl\<lparr>tbl_columns := (tbl_columns tbl)(col \<mapsto> c')\<rparr>)
          \<and> col_dtype c' = DTYPE_FLOAT64
          \<and> col_size c' = col_size c
          \<and> col_rows c' ! k = (S_FLOAT64 (read_double ptr k), ROW_PRESENT)
          \<and> (\<forall>j. k < j \<and> j < col_size c \<longrightarrow>
                col_rows c' ! j =
                  (if npy_isnan (read_double ptr j) then (S_NONE, absent_mark is_update)
                   else (S_FLOAT64 (if np_dtype = DTYPE_INT64
                                    then double_of_int (sint (read_uint64 ptr j))
                                    else read_double ptr j), ROW_PRESENT)))
          \<and> (\<forall>j<k.
                col_rows c' ! j =
                  (if npy_isnan (read_double ptr j)
                   then (promote_scalar DTYPE_FLOAT64 (fst (col_rows c ! j)), absent_mark is_update)
                   else (S_FLOAT64 (DOUBLE_FIN (of_int (sint
                           (if np_dtype = DTYPE_INT64 then ucast (read_uint64 ptr j)
                            else read_uint32 ptr j)))), ROW_PRESENT)))"
proof -
  let ?gI = "\<lambda>i. map_row i (numeric_row ptr np_dtype DTYPE_INT32 is_update i)"
  let ?gF = "\<lambda>i. map_row i (numeric_row ptr np_dtype DTYPE_FLOAT64 is_update i)"
  let ?n = "col_size c"
  let ?A = "fold ?gI [0..<k] c"
  let ?B = "promote_col DTYPE_FLOAT64 k True ?A"
  let ?C = "set_nth k (S_FLOAT64 (read_double ptr k)) ?B"
  let ?D = "fold ?gF [Suc k..<?n] ?C"
  have run: "fill_numeric_iter ld ptr tbl col col np_dtype DTYPE_INT32 cidx is_update =
               Inr (tbl\<lparr>tbl_columns := (tbl_columns tbl)(col \<mapsto> ?D)\<rparr>)"
    by (rule fill_numeric_iter_trigger [OF assms])
  have lenC: "length (col_rows ?C) = ?n"
    by (simp add: set_nth_map_row col_size_def)
  have rowC: "col_rows ?C ! j =
                (if j = k then (S_FLOAT64 (read_double ptr k), ROW_PRESENT)
                 else if j < k
                 then (promote_scalar DTYPE_FLOAT64 (fst (numeric_row ptr np_dtype DTYPE_INT32 is_update j
                                                           (col_rows c ! j))),
                       snd (numeric_row ptr np_dtype DTYPE_INT32 is_update j (col_rows c ! j)))
                 else (S_NONE, ROW_CLEARED))"
    if "j < ?n" for j
    using that
    by (simp add: set_nth_map_row map_row_nth promote_col_nth fold_map_row_nth col_size_def)
  have rowD: "col_rows ?D ! j =
                (if k < j then numeric_row ptr np_dtype DTYPE_FLOAT64 is_update j (col_rows ?C ! j)
                 else col_rows ?C ! j)"
    if "j < ?n" for j
    using that lenC by (simp add: fold_map_row_nth)
  have dt: "col_dtype ?D = DTYPE_FLOAT64"
    by (simp add: set_nth_map_row)
  have len: "col_size ?D = ?n"
    using lenC by (simp add: col_size_def)
  have atk: "col_rows ?D ! k = (S_FLOAT64 (read_double ptr k), ROW_PRESENT)"
    using assms(3) rowD [of k] rowC [of k] by simp
  have after: "col_rows ?D ! j =
                  (if npy_isnan (read_double ptr j) then (S_NONE, absent_mark is_update)
                   else (S_FLOAT64 (if np_dtype = DTYPE_INT64
                                    then double_of_int (sint (read_uint64 ptr j))
                                    else read_double ptr j), ROW_PRESENT))"
    if "k < j" "j < ?n" for j
  proof -
    have "col_rows ?D ! j = numeric_row ptr np_dtype DTYPE_FLOAT64 is_update j (col_rows ?C ! j)"
      using that rowD [of j] by simp
    moreover have "col_rows ?C ! j = (S_NONE, ROW_CLEARED)"
      using that rowC [of j] by simp
    ultimately show ?thesis
      by (simp add: numeric_row_def numeric_value_def is_numeric_dtype_def)
  qed
  have before: "col_rows ?D ! j =
                  (if npy_isnan (read_double ptr j)
                   then (promote_scalar DTYPE_FLOAT64 (fst (col_rows c ! j)), absent_mark is_update)
                   else (S_FLOAT64 (DOUBLE_FIN (of_int (sint
                           (if np_dtype = DTYPE_INT64 then ucast (read_uint64 ptr j)
                            else read_uint32 ptr j)))), ROW_PRESENT))"
    if "j < k" for j
  proof -
    have "col_rows ?D ! j = col_rows ?C ! j"
      using that assms(3) rowD [of j] by simp
    moreover have "col_rows ?C ! j =
        (promote_scalar DTYPE_FLOAT64 (fst (numeric_row ptr np_dtype DTYPE_INT32 is_update j
                                                           (col_rows c ! j))),
         snd (numeric_row ptr np_dtype DTYPE_INT32 is_update j (col_rows c ! j)))"
      using that assms(3) rowC [of j] by simp
    ultimately show ?thesis
      by (simp add: numeric_row_def numeric_value_def is_numeric_dtype_def sint32_exact)
  qed
  show ?thesis
    using run dt len atk after before by (intro exI [of _ ?D]) simp
qed

lemma ex_bytes_row0:
  "read_uint64 (bytes_at [7,0,0,0,0,0,0,0, 0,0,0,0xC0,0x0B,0x5A,0xE6,0x41]) 0 = 7"
  by (simp add: read_uint64_def bytes_at_def)

lemma ex_bytes_row1:
  "read_uint64 (bytes_at [7,0,0,0,0,0,0,0, 0,0,0,0xC0,0x0B,0x5A,0xE6,0x41]) (Suc 0) = 0x41E65A0BC0000000"
  by (simp add: read_uint64_def bytes_at_def)


lemma range_test_promotes_to_float64_example:
  "m_init (example_loader DTYPE_INT64 [7,0,0,0,0,0,0,0, 0,0,0,0xC0,0x0B,0x5A,0xE6,0x41] [] [])
   \<and> tbl_columns (example_table DTYPE_INT32 2) ''a'' = Some (new_column DTYPE_INT32 2)
   \<and> 1 < col_size (new_column DTYPE_INT32 2)
   \<and> outside_int32 (read_double (bytes_at [7,0,0,0,0,0,0,0, 0,0,0,0xC0,0x0B,0x5A,0xE6,0x41]) 1)
   \<and> \<not> outside_int32 (read_double (bytes_at [7,0,0,0,0,0,0,0, 0,0,0,0xC0,0x0B,0x5A,0xE6,0x41]) 0)
   \<and> (\<exists>c'. fill_numeric_iter
                 (example_loader DTYPE_INT64 [7,0,0,0,0,0,0,0, 0,0,0,0xC0,0x0B,0x5A,0xE6,0x41] [] [])
                 (bytes_at [7,0,0,0,0,0,0,0, 0,0,0,0xC0,0x0B,0x5A,0xE6,0x41])
                 (example_table DTYPE_INT32 2) ''a'' ''a'' DTYPE_INT64 DTYPE_INT32 0 False =
               Inr ((example_table DTYPE_INT32 2)
                      \<lparr>tbl_columns := (tbl_columns (example_table DTYPE_INT32 2))(''a'' \<mapsto> c')\<rparr>)
            \<and> col_dtype c' = DTYPE_FLOAT64
            \<and> col_rows c' ! 1 = (S_FLOAT64 (DOUBLE_FIN 3000000000), ROW_PRESENT)
            \<and> col_rows c' ! 0 = (S_FLOAT64 (DOUBLE_FIN 7), ROW_PRESENT))"
proof -
  let ?bs = "[7,0,0,0,0,0,0,0, 0,0,0,0xC0,0x0B,0x5A,0xE6,0x41] :: 8 word list"
  let ?ld = "example_loader DTYPE_INT64 ?bs [] []"
  let ?tbl = "example_table DTYPE_INT32 2"
  have h1: "m_init ?ld" by (simp add: example_loader_def)
  have h2: "tbl_columns ?tbl ''a'' = Some (new_column DTYPE_INT32 2)"
    by (simp add: example_table_def)
  have h3: "1 < col_size (new_column DTYPE_INT32 2)"
    by (simp add: col_size_def new_column_def)
  have d1: "read_double (bytes_at ?bs) (Suc 0) = DOUBLE_FIN 3000000000"
    by (simp add: read_double_def ex_bytes_row1 double_of_bits_def)
  have d0: "read_double (bytes_at ?bs) 0 = DOUBLE_FIN (7 / 2 ^ 1074)"
    by (simp add: read_double_def ex_bytes_row0 double_of_bits_def)
  have h4: "outside_int32 (read_double (bytes_at ?bs) 1)"
    by (simp add: d1 outside_int32_def)
  have h5: "\<not> outside_int32 (read_double (bytes_at ?bs) 0)"
    by (simp add: d0 outside_int32_def field_simps)
  have h5': "\<forall>j<1. \<not> outside_int32 (read_double (bytes_at ?bs) j)"
    using h5 by simp
  from range_test_promotes_to_float64 [OF h1 h2 h3 h4 h5', of DTYPE_INT64 0 False]
  obtain c' where
    "fill_numeric_iter ?ld (bytes_at ?bs) ?tbl ''a'' ''a'' DTYPE_INT64 DTYPE_INT32 0 False =
       Inr (?tbl\<lparr>tbl_columns := (tbl_columns ?tbl)(''a'' \<mapsto> c')\<rparr>)"
    "col_dtype c' = DTYPE_FLOAT64"
    "col_rows c' ! 1 = (S_FLOAT64 (DOUBLE_FIN 3000000000), ROW_PRESENT)"
    "col_rows c' ! 0 = (S_FLOAT64 (DOUBLE_FIN 7), ROW_PRESENT)"
    by (auto simp: d0 d1 npy_isnan_def ex_bytes_row0)
  then show ?thesis using h1 h2 h3 h4 h5 by blast
qed

subsection \<open>A 64-bit-integer source above the 32-bit range\<close>

lemma ex_big_row0:
  "read_uint64 (bytes_at [0,0x5E,0xD0,0xB2,0,0,0,0, 7,0,0,0,0,0,0,0]) 0 = 0xB2D05E00"
  by (simp add: read_uint64_def bytes_at_def)

lemma ex_big_row1:
  "read_uint64 (bytes_at [0,0x5E,0xD0,0xB2,0,0,0,0, 7,0,0,0,0,0,0,0]) (Suc 0) = 7"
  by (simp add: read_uint64_def bytes_at_def)

lemma ex_big_double0:
  "read_double (bytes_at [0,0x5E,0xD0,0xB2,0,0,0,0, 7,0,0,0,0,0,0,0]) 0
     = DOUBLE_FIN (3000000000 / 2 ^ 1074)"
  by (simp add: read_double_def ex_big_row0 double_of_bits_def)

lemma ex_big_double1:
  "read_double (bytes_at [0,0x5E,0xD0,0xB2,0,0,0,0, 7,0,0,0,0,0,0,0]) (Suc 0)
     = DOUBLE_FIN (7 / 2 ^ 1074)"
  by (simp add: read_double_def ex_big_row1 double_of_bits_def)

lemma ex_big_inside1:
  "\<not> outside_int32 (read_double (bytes_at [0,0x5E,0xD0,0xB2,0,0,0,0, 7,0,0,0,0,0,0,0]) (Suc 0))"
  by (simp add: ex_big_double1 outside_int32_def field_simps)

lemma ex_big_low: "(ucast (0xB2D05E00 :: 64 word) :: 32 word) = - 1294967296"
  by simp

lemma ex_big_small:
  "- 2147483648 \<le> (3000000000::rat) / 2 ^ 1074 \<and> (3000000000::rat) / 2 ^ 1074 \<le> 2147483647"
proof -
  have "(2::rat) ^ 32 \<le> 2 ^ 1074" by (rule power_increasing) simp_all
  moreover have "(3000000000::rat) \<le> 2 ^ 32" by simp
  ultimately have "(3000000000::rat) \<le> 2 ^ 1074" by (rule order_trans [rotated])
  then have a: "(3000000000::rat) / 2 ^ 1074 \<le> 1" by (simp add: divide_le_eq_1)
  have b: "0 \<le> (3000000000::rat) / 2 ^ 1074" by (rule divide_nonneg_nonneg) simp_all
  from a have "(3000000000::rat) / 2 ^ 1074 \<le> 2147483647" by (rule order_trans) simp
  moreover from b have "- 2147483648 \<le> (3000000000::rat) / 2 ^ 1074"
    by (rule order_trans [rotated]) simp
  ultimately show ?thesis by (rule conjI [rotated])
qed

lemma ex_big_inside0:
  "\<not> outside_int32 (read_double (bytes_at [0,0x5E,0xD0,0xB2,0,0,0,0, 7,0,0,0,0,0,0,0]) 0)"
  using ex_big_small by (simp add: ex_big_double0 outside_int32_def not_less del: power_numeral)

lemma ex_big_fill:
  "fill_column (example_loader DTYPE_INT64 [0,0x5E,0xD0,0xB2,0,0,0,0, 7,0,0,0,0,0,0,0] [] [])
     (example_table DTYPE_INT32 2) ''a'' ''a'' DTYPE_INT32 0 False
   = fill_numeric_iter (example_loader DTYPE_INT64 [0,0x5E,0xD0,0xB2,0,0,0,0, 7,0,0,0,0,0,0,0] [] [])
       (bytes_at [0,0x5E,0xD0,0xB2,0,0,0,0, 7,0,0,0,0,0,0,0])
       (example_table DTYPE_INT32 2) ''a'' ''a'' DTYPE_INT64 DTYPE_INT32 0 False"
  by (simp add: fill_column_def fill_column_iter_def example_loader_def Let_def)

text \<open>
  Claim C1. A row whose source value is greater than 2147483647 is to promote the
  32-bit-integer column to 64-bit float. \<^verbatim>\<open>fill_numeric_iter\<close> makes its range test
  on \<^verbatim>\<open>((double*)ptr)[i]\<close>, the eight bytes of the element read as a double,
  whatever the source element type is, while the branch next to it and the 64-bit-float
  case read an int64 source as \<^verbatim>\<open>std::int64_t\<close>. A source of 64-bit integers is what
  \<open>fill_column\<close> sends to this path for a 32-bit-integer column. There the element
  3000000000 (bytes \<open>00 5E D0 B2 00 00 00 00\<close>) reads as a subnormal double, the test
  does not fire, the column stays a 32-bit-integer column, and the row holds the element
  cut to 32 bits, -1294967296; the second row shows an ordinary element, 7.
\<close>

theorem int64_row_above_int32_range_not_promoted:
  "sint (read_uint64 (bytes_at [0,0x5E,0xD0,0xB2,0,0,0,0, 7,0,0,0,0,0,0,0]) 0) = 3000000000
   \<and> outside_int32 (double_of_int 3000000000)
   \<and> column_of (fill_column (example_loader DTYPE_INT64 [0,0x5E,0xD0,0xB2,0,0,0,0, 7,0,0,0,0,0,0,0] [] [])
                  (example_table DTYPE_INT32 2) ''a'' ''a'' DTYPE_INT32 0 False) ''a''
       = Some \<lparr>col_dtype = DTYPE_INT32,
               col_rows = [(S_INT32 (- 1294967296), ROW_PRESENT), (S_INT32 7, ROW_PRESENT)]\<rparr>
   \<and> sint (- 1294967296 :: 32 word) = - 1294967296"
proof (intro conjI)
  let ?bs = "[0,0x5E,0xD0,0xB2,0,0,0,0, 7,0,0,0,0,0,0,0] :: 8 word list"
  let ?ld = "example_loader DTYPE_INT64 ?bs [] []"
  let ?tbl = "example_table DTYPE_INT32 2"
  let ?c = "new_column DTYPE_INT32 2"
  show "sint (read_uint64 (bytes_at ?bs) 0) = 3000000000"
    by (simp add: ex_big_row0)
  show "outside_int32 (double_of_int 3000000000)"
    by (simp add: double_of_int_exact outside_int32_def)
  show "sint (- 1294967296 :: 32 word) = - 1294967296"
    by simp
  have h1: "m_init ?ld" by (simp add: example_loader_def)
  have h2: "tbl_columns ?tbl ''a'' = Some ?c" by (simp add: example_table_def)
  have h3: "\<not> outside_int32 (read_double (bytes_at ?bs) i)" if "i < col_size ?c" for i
  proof -
    from that have "i = 0 \<or> i = Suc 0"
      by (auto simp: col_size_def new_column_def)
    then show ?thesis using ex_big_inside0 ex_big_inside1 by auto
  qed
  have run: "fill_numeric_iter ?ld (bytes_at ?bs) ?tbl ''a'' ''a'' DTYPE_INT64 DTYPE_INT32 0 False =
          Inr (?tbl\<lparr>tbl_columns := (tbl_columns ?tbl)
                  (''a'' \<mapsto> fold (\<lambda>i. map_row i (numeric_row (bytes_at ?bs) DTYPE_INT64 DTYPE_INT32 False i))
                            [0..<col_size ?c] ?c)\<rparr>)"
    by (rule fill_numeric_iter_plain [OF h1 h2]) (use h3 in auto)
  have n0: "\<not> npy_isnan (read_double (bytes_at ?bs) 0)"
    by (simp add: ex_big_double0 npy_isnan_def)
  have n1: "\<not> npy_isnan (read_double (bytes_at ?bs) (Suc 0))"
    by (simp add: ex_big_double1 npy_isnan_def)
  have len: "[0..<col_size ?c] = [0, Suc 0]"
    by (simp add: col_size_def new_column_def upt_conv_Cons numeral_2_eq_2)
  have c: "?c = \<lparr>col_dtype = DTYPE_INT32, col_rows = [(S_NONE, ROW_CLEARED), (S_NONE, ROW_CLEARED)]\<rparr>"
    by (simp add: new_column_def numeral_2_eq_2)
  have r0: "numeric_row (bytes_at ?bs) DTYPE_INT64 DTYPE_INT32 False 0 r
              = (S_INT32 (- 1294967296), ROW_PRESENT)" for r
    using n0
    by (simp add: numeric_row_def numeric_value_def is_numeric_dtype_def ex_big_row0 ex_big_low)
  have r1: "numeric_row (bytes_at ?bs) DTYPE_INT64 DTYPE_INT32 False (Suc 0) r
              = (S_INT32 7, ROW_PRESENT)" for r
    using n1
    by (simp add: numeric_row_def numeric_value_def is_numeric_dtype_def ex_big_row1)
  have rows: "fold (\<lambda>i. map_row i (numeric_row (bytes_at ?bs) DTYPE_INT64 DTYPE_INT32 False i))
                [0..<col_size ?c] ?c
              = \<lparr>col_dtype = DTYPE_INT32,
                 col_rows = [(S_INT32 (- 1294967296), ROW_PRESENT), (S_INT32 7, ROW_PRESENT)]\<rparr>"
    unfolding len unfolding c by (simp add: map_row_def r0 r1)
  show "column_of (fill_column ?ld ?tbl ''a'' ''a'' DTYPE_INT32 0 False) ''a''
       = Some \<lparr>col_dtype = DTYPE_INT32,
               col_rows = [(S_INT32 (- 1294967296), ROW_PRESENT), (S_INT32 7, ROW_PRESENT)]\<rparr>"
    by (simp only: ex_big_fill run rows) (simp add: column_of_def)
qed

section \<open>Not-a-number rows of 64-bit-integer and 64-bit-float columns\<close>

text \<open>
  Claim C2, as amended. In a fill of a 64-bit-integer or 64-bit-float column on the
  iterative numeric path no promotion to string takes place: the call returns, the
  column keeps its type and size, a row whose eight source bytes read as not-a-number
  is marked absent (\<open>unset\<close> on update, \<open>clear\<close> on load) by the test at the top
  of the loop and keeps its stored value, and every other row is written with its
  numeric encoding. The branch that promotes to string stands behind that test (for a
  float column) or tests an integer for not-a-number (for an integer column), and is
  never taken.
\<close>

theorem int64_float64_nan_rows_absent:
  assumes "m_init ld" and "tbl_columns tbl col = Some c"
      and "type = DTYPE_INT64 \<or> type = DTYPE_FLOAT64"
  shows "\<exists>c'. fill_numeric_iter ld ptr tbl col name np_dtype type cidx is_update =
                 Inr (tbl\<lparr>tbl_columns := (tbl_columns tbl)(col \<mapsto> c')\<rparr>)
          \<and> col_dtype c' = col_dtype c
          \<and> col_size c' = col_size c
          \<and> (\<forall>j<col_size c.
                col_rows c' ! j =
                  (if npy_isnan (read_double ptr j) then (fst (col_rows c ! j), absent_mark is_update)
                   else if type = DTYPE_INT64 then (S_INT64 (read_uint64 ptr j), ROW_PRESENT)
                   else (S_FLOAT64 (if np_dtype = DTYPE_INT64
                                    then double_of_int (sint (read_uint64 ptr j))
                                    else read_double ptr j), ROW_PRESENT)))"
proof -
  let ?c' = "fold (\<lambda>i. map_row i (numeric_row ptr np_dtype type is_update i)) [0..<col_size c] c"
  have run: "fill_numeric_iter ld ptr tbl col name np_dtype type cidx is_update =
               Inr (tbl\<lparr>tbl_columns := (tbl_columns tbl)(col \<mapsto> ?c')\<rparr>)"
    using assms by (intro fill_numeric_iter_plain) auto
  have rows: "col_rows ?c' ! j =
                  (if npy_isnan (read_double ptr j) then (fst (col_rows c ! j), absent_mark is_update)
                   else if type = DTYPE_INT64 then (S_INT64 (read_uint64 ptr j), ROW_PRESENT)
                   else (S_FLOAT64 (if np_dtype = DTYPE_INT64
                                    then double_of_int (sint (read_uint64 ptr j))
                                    else read_double ptr j), ROW_PRESENT))"
    if "j < col_size c" for j
    using that assms(3)
    by (auto simp: fold_map_row_nth col_size_def numeric_row_def numeric_value_def
          is_numeric_dtype_def)
  show ?thesis
    using run rows by (intro exI [of _ ?c']) (simp add: col_size_def)
qed



theorem int64_float64_nan_rows_absent_witness:
  "m_init (example_loader DTYPE_INT64 [0,0,0,0,0,0,0xF8,0x7F] [] [PY_STR ''nan''])
   \<and> tbl_columns (example_table DTYPE_FLOAT64 1) ''a'' = Some (new_column DTYPE_FLOAT64 1)
   \<and> (\<exists>c'. fill_numeric_iter (example_loader DTYPE_INT64 [0,0,0,0,0,0,0xF8,0x7F] [] [PY_STR ''nan''])
                 (bytes_at [0,0,0,0,0,0,0xF8,0x7F]) (example_table DTYPE_FLOAT64 1) ''a'' ''a''
                 DTYPE_INT64 DTYPE_FLOAT64 0 False =
               Inr ((example_table DTYPE_FLOAT64 1)
                      \<lparr>tbl_columns := (tbl_columns (example_table DTYPE_FLOAT64 1))(''a'' \<mapsto> c')\<rparr>)
            \<and> col_dtype c' = DTYPE_FLOAT64
            \<and> col_rows c' ! 0 = (S_NONE, ROW_CLEARED))"
proof -
  let ?ld = "example_loader DTYPE_INT64 [0,0,0,0,0,0,0xF8,0x7F] [] [PY_STR ''nan'']"
  let ?tbl = "example_table DTYPE_FLOAT64 1"
  have h1: "m_init ?ld" by (simp add: example_loader_def)
  have h2: "tbl_columns ?tbl ''a'' = Some (new_column DTYPE_FLOAT64 1)"
    by (simp add: example_table_def)
  have nan: "npy_isnan (read_double (bytes_at [0,0,0,0,0,0,0xF8,0x7F]) 0)"
    by (simp add: npy_isnan_def read_double_def read_uint64_def bytes_at_def double_of_bits_def)
  from int64_float64_nan_rows_absent [OF h1 h2, of DTYPE_FLOAT64 "bytes_at [0,0,0,0,0,0,0xF8,0x7F]"
         "''a''" DTYPE_INT64 0 False]
  obtain c' where
    "fill_numeric_iter ?ld (bytes_at [0,0,0,0,0,0,0xF8,0x7F]) ?tbl ''a'' ''a''
        DTYPE_INT64 DTYPE_FLOAT64 0 False =
       Inr (?tbl\<lparr>tbl_columns := (tbl_columns ?tbl)(''a'' \<mapsto> c')\<rparr>)"
    "col_dtype c' = DTYPE_FLOAT64"
    "col_rows c' ! 0 = (S_NONE, ROW_CLEARED)"
    using nan by (auto simp: new_column_def col_size_def absent_mark_def)
  then show ?thesis using h1 h2 by blast
qed


text \<open>
  Claim C2 as stated fails: the one row of these two columns reads as not-a-number and
  its cell marshals to the text \<open>nan\<close>, yet after the fill the column is still a
  float (respectively integer) column and the row is marked absent, with no string in it.
\<close>

theorem nan_row_promotes_to_string_counterexample:
  "column_of (fill_numeric_iter (example_loader DTYPE_INT64 [0,0,0,0,0,0,0xF8,0x7F] [] [PY_STR ''nan''])
                (bytes_at [0,0,0,0,0,0,0xF8,0x7F]) (example_table DTYPE_FLOAT64 1) ''a'' ''a''
                DTYPE_INT64 DTYPE_FLOAT64 0 False) ''a''
     = Some \<lparr>col_dtype = DTYPE_FLOAT64, col_rows = [(S_NONE, ROW_CLEARED)]\<rparr>
   \<and> column_of (fill_numeric_iter (example_loader DTYPE_INT64 [0,0,0,0,0,0,0xF8,0x7F] [] [PY_STR ''nan''])
                (bytes_at [0,0,0,0,0,0,0xF8,0x7F]) (example_table DTYPE_INT64 1) ''a'' ''a''
                DTYPE_INT64 DTYPE_INT64 0 True) ''a''
     = Some \<lparr>col_dtype = DTYPE_INT64, col_rows = [(S_NONE, ROW_UNSET)]\<rparr>"
  by (simp add: column_of_def fill_numeric_iter_def example_loader_def example_table_def
        new_column_def col_size_def fill_numeric_row_def npy_isnan_def read_double_def
        read_uint64_def bytes_at_def double_of_bits_def upd_col_def unset_def clear_def
        mark_row_def)

section \<open>The mismatch guard of fill\_column\<close>

text \<open>
  Claim C4, as amended. \<open>fill_column\<close> goes straight to the iterative path, with no
  attempt at the bulk copy, exactly when the inferred source type is int64 and the
  destination type is 32-bit integer or 64-bit float. For every other pair whose source
  type is one of the ten numeric types (wider than the destination or not) it makes
  the bulk copy, sets every row present and applies the null positions.
\<close>

theorem mismatch_guard:
  assumes "m_init ld" and "find_index_of name (m_names ld) = Some nidx"
      and "nc_array (get_numpy_column (m_accessor ld) name type) = Some array"
  shows "(m_types ld ! nidx = DTYPE_INT64 \<and> (type = DTYPE_INT32 \<or> type = DTYPE_FLOAT64) \<longrightarrow>
            fill_column ld tbl col name type cidx is_update =
              fill_column_iter ld array tbl col name DTYPE_INT64 type cidx is_update)
       \<and> (\<not> (m_types ld ! nidx = DTYPE_INT64 \<and> (type = DTYPE_INT32 \<or> type = DTYPE_FLOAT64))
            \<and> is_numeric_dtype (m_types ld ! nidx) \<and> tbl_columns tbl col = Some c \<longrightarrow>
            (\<exists>c1. copy_array ld array c (m_types ld ! nidx) 0 = Inr (FILL_SUCCEED, c1)
                \<and> fill_column ld tbl col name type cidx is_update =
                    Inr (tbl\<lparr>tbl_columns := (tbl_columns tbl)
                           (col \<mapsto> apply_mask is_update
                                    (nc_mask (get_numpy_column (m_accessor ld) name type))
                                    (valid_raw_fill c1))\<rparr>)))"
proof (intro conjI impI)
  assume "m_types ld ! nidx = DTYPE_INT64 \<and> (type = DTYPE_INT32 \<or> type = DTYPE_FLOAT64)"
  then show "fill_column ld tbl col name type cidx is_update =
               fill_column_iter ld array tbl col name DTYPE_INT64 type cidx is_update"
    using assms by (auto simp: fill_column_def)
next
  assume a: "\<not> (m_types ld ! nidx = DTYPE_INT64 \<and> (type = DTYPE_INT32 \<or> type = DTYPE_FLOAT64))
             \<and> is_numeric_dtype (m_types ld ! nidx) \<and> tbl_columns tbl col = Some c"
  from copy_array_ok [OF assms(1), of "m_types ld ! nidx" array c 0] a
  obtain c1 where c1: "copy_array ld array c (m_types ld ! nidx) 0 = Inr (FILL_SUCCEED, c1)"
    by auto
  have "fill_column ld tbl col name type cidx is_update =
          Inr (tbl\<lparr>tbl_columns := (tbl_columns tbl)
                 (col \<mapsto> apply_mask is_update
                          (nc_mask (get_numpy_column (m_accessor ld) name type))
                          (valid_raw_fill c1))\<rparr>)"
    using assms a c1 by (auto simp: fill_column_def Let_def)
  with c1 show "\<exists>c1. copy_array ld array c (m_types ld ! nidx) 0 = Inr (FILL_SUCCEED, c1)
                \<and> fill_column ld tbl col name type cidx is_update =
                    Inr (tbl\<lparr>tbl_columns := (tbl_columns tbl)
                           (col \<mapsto> apply_mask is_update
                                    (nc_mask (get_numpy_column (m_accessor ld) name type))
                                    (valid_raw_fill c1))\<rparr>)"
    by blast
qed


theorem mismatch_guard_witness:
  "m_init (example_loader DTYPE_INT64 [0,0,0,0,0,0,0xF0,0x3F] [] [])
   \<and> find_index_of ''a'' (m_names (example_loader DTYPE_INT64 [0,0,0,0,0,0,0xF0,0x3F] [] []))
       = Some 0
   \<and> nc_array (get_numpy_column
                 (m_accessor (example_loader DTYPE_INT64 [0,0,0,0,0,0,0xF0,0x3F] [] []))
                 ''a'' DTYPE_INT32) = Some (bytes_at [0,0,0,0,0,0,0xF0,0x3F])
   \<and> fill_column (example_loader DTYPE_INT64 [0,0,0,0,0,0,0xF0,0x3F] [] [])
         (example_table DTYPE_INT32 1) ''a'' ''a'' DTYPE_INT32 0 False
       = fill_column_iter (example_loader DTYPE_INT64 [0,0,0,0,0,0,0xF0,0x3F] [] [])
           (bytes_at [0,0,0,0,0,0,0xF0,0x3F]) (example_table DTYPE_INT32 1) ''a'' ''a''
           DTYPE_INT64 DTYPE_INT32 0 False"
proof -
  let ?ld = "example_loader DTYPE_INT64 [0,0,0,0,0,0,0xF0,0x3F] [] []"
  have h1: "m_init ?ld" by (simp add: example_loader_def)
  have h2: "find_index_of ''a'' (m_names ?ld) = Some 0" by (simp add: example_loader_def)
  have h3: "nc_array (get_numpy_column (m_accessor ?ld) ''a'' DTYPE_INT32)
              = Some (bytes_at [0,0,0,0,0,0,0xF0,0x3F])"
    by (simp add: example_loader_def)
  have t: "m_types ?ld ! 0 = DTYPE_INT64" by (simp add: example_loader_def)
  from mismatch_guard [OF h1 h2 h3, of "example_table DTYPE_INT32 1" "''a''" 0 False] t
  have "fill_column ?ld (example_table DTYPE_INT32 1) ''a'' ''a'' DTYPE_INT32 0 False
       = fill_column_iter ?ld (bytes_at [0,0,0,0,0,0,0xF0,0x3F]) (example_table DTYPE_INT32 1)
           ''a'' ''a'' DTYPE_INT64 DTYPE_INT32 0 False"
    by simp
  then show ?thesis using h1 h2 h3 by blast
qed

text \<open>
  Claim C4 as stated fails: an unsigned 64-bit source is a wider integer than a 32-bit
  integer destination, and \<open>fill_column\<close> copies it in bulk (the row holds the eight
  source bytes as one 64-bit value) where the iterative path would have stored a 32-bit
  integer.
\<close>

lemma ex_one_bits: "read_uint64 (bytes_at [0,0,0,0,0,0,0xF0,0x3F]) 0 = 0x3FF0000000000000"
  by (simp add: read_uint64_def bytes_at_def)

lemma ex_one_double: "read_double (bytes_at [0,0,0,0,0,0,0xF0,0x3F]) 0 = DOUBLE_FIN 1"
  by (simp add: read_double_def ex_one_bits double_of_bits_def)

lemma ex_one_low: "read_uint32 (bytes_at [0,0,0,0,0,0,0xF0,0x3F]) 0 = 0"
  by (simp add: read_uint32_def bytes_at_def)

theorem wider_source_takes_bulk_copy_counterexample:
  "strictly_wider_integer DTYPE_UINT64 DTYPE_INT32
   \<and> column_of (fill_column (example_loader DTYPE_UINT64 [0,0,0,0,0,0,0xF0,0x3F] [] [])
                  (example_table DTYPE_INT32 1) ''a'' ''a'' DTYPE_INT32 0 False) ''a''
       = Some \<lparr>col_dtype = DTYPE_INT32, col_rows = [(S_UINT64 0x3FF0000000000000, ROW_PRESENT)]\<rparr>
   \<and> column_of (fill_column_iter (example_loader DTYPE_UINT64 [0,0,0,0,0,0,0xF0,0x3F] [] [])
                  (bytes_at [0,0,0,0,0,0,0xF0,0x3F]) (example_table DTYPE_INT32 1) ''a'' ''a''
                  DTYPE_UINT64 DTYPE_INT32 0 False) ''a''
       = Some \<lparr>col_dtype = DTYPE_INT32, col_rows = [(S_INT32 0, ROW_PRESENT)]\<rparr>"
proof (intro conjI)
  show "strictly_wider_integer DTYPE_UINT64 DTYPE_INT32"
    by (simp add: strictly_wider_integer_def integer_bits_def numeric_bits_def)
  show "column_of (fill_column (example_loader DTYPE_UINT64 [0,0,0,0,0,0,0xF0,0x3F] [] [])
                  (example_table DTYPE_INT32 1) ''a'' ''a'' DTYPE_INT32 0 False) ''a''
       = Some \<lparr>col_dtype = DTYPE_INT32, col_rows = [(S_UINT64 0x3FF0000000000000, ROW_PRESENT)]\<rparr>"
    by (simp add: column_of_def fill_column_def example_loader_def example_table_def
          new_column_def copy_array_def copy_array_helper_def col_size_def valid_raw_fill_def
          ex_one_bits)
  show "column_of (fill_column_iter (example_loader DTYPE_UINT64 [0,0,0,0,0,0,0xF0,0x3F] [] [])
                  (bytes_at [0,0,0,0,0,0,0xF0,0x3F]) (example_table DTYPE_INT32 1) ''a'' ''a''
                  DTYPE_UINT64 DTYPE_INT32 0 False) ''a''
       = Some \<lparr>col_dtype = DTYPE_INT32, col_rows = [(S_INT32 0, ROW_PRESENT)]\<rparr>"
    by (simp add: column_of_def fill_column_iter_def fill_numeric_iter_def example_loader_def
          example_table_def new_column_def col_size_def fill_numeric_row_def ex_one_double
          ex_one_low npy_isnan_def double_of_int_exact upd_col_def set_nth_def)
qed

section \<open>The datetime fill\<close>

lemma fill_datetime_rows_fold:
  "fill_datetime_rows ptr is_update xs col =
     fold (\<lambda>i. map_row i (\<lambda>r. (S_INT64 (read_uint64 ptr i * 1000), ROW_PRESENT))) xs col"
  by (induction xs arbitrary: col) (simp_all add: Let_def set_nth_map_row)

lemma fill_datetime_iter_rows:
  assumes "m_init ld"
  shows "\<exists>col'. fill_datetime_iter ld ptr col name np_dtype type cidx is_update = Inr col'
          \<and> col_dtype col' = col_dtype col \<and> col_size col' = col_size col
          \<and> (\<forall>j<col_size col. col_rows col' ! j = (S_INT64 (read_uint64 ptr j * 1000), ROW_PRESENT))"
  using assms
  by (simp add: fill_datetime_iter_def fill_datetime_rows_fold col_size_def fold_map_row_nth)

lemma ex_nat_row: "read_uint64 (bytes_at [0,0,0,0,0,0,0,0x80, 5,0,0,0,0,0,0,0]) 0 * 1000 = 0"
  by (simp add: read_uint64_def bytes_at_def)

lemma ex_five_row: "read_uint64 (bytes_at [0,0,0,0,0,0,0,0x80, 5,0,0,0,0,0,0,0]) (Suc 0) * 1000 = 5000"
  by (simp add: read_uint64_def bytes_at_def)

text \<open>
  Claim C5. \<open>fill_datetime_iter\<close> reads each element as a 64-bit integer and
  multiplies it by 1000, but its test \<^verbatim>\<open>npy_isnan(item)\<close> is applied to that integer
  and never holds, so no timestamp marks its row absent. At numpy's not-a-time value (the
  least 64-bit integer, bytes \<open>00 .. 00 80\<close>) the product wraps to 0 and the row is
  written as the present timestamp 0; the second row shows an ordinary element, 5,
  written as 5000.
\<close>

theorem datetime_nat_row_written_as_zero:
  "fill_datetime_iter (example_loader DTYPE_STR [0,0,0,0,0,0,0,0x80, 5,0,0,0,0,0,0,0] [] [])
     (bytes_at [0,0,0,0,0,0,0,0x80, 5,0,0,0,0,0,0,0]) (new_column DTYPE_TIME 2) ''a''
     DTYPE_STR DTYPE_TIME 0 False
   = Inr \<lparr>col_dtype = DTYPE_TIME,
          col_rows = [(S_INT64 0, ROW_PRESENT), (S_INT64 5000, ROW_PRESENT)]\<rparr>"
  by (simp add: fill_datetime_iter_def example_loader_def new_column_def col_size_def
        ex_nat_row ex_five_row npy_isnan_def double_of_int_def set_nth_def
        upt_conv_Cons numeral_2_eq_2)

section \<open>What a fill leaves alone\<close>

lemma same_outside_refl [simp]: "same_outside S tbl tbl"
  by (simp add: same_outside_def)

lemma same_outside_trans:
  "same_outside S t1 t2 \<Longrightarrow> same_outside S t2 t3 \<Longrightarrow> same_outside S t1 t3"
  by (simp add: same_outside_def)

lemma same_outside_mono: "same_outside S t1 t2 \<Longrightarrow> S \<subseteq> U \<Longrightarrow> same_outside U t1 t2"
  unfolding same_outside_def by blast

lemma same_outside_upd_col [simp]: "h \<in> S \<Longrightarrow> same_outside S tbl (upd_col h f tbl)"
  by (auto simp: same_outside_def upd_col_def split: option.splits)

lemma same_outside_put [simp]:
  "h \<in> S \<Longrightarrow> same_outside S tbl (tbl\<lparr>tbl_columns := (tbl_columns tbl)(h \<mapsto> c)\<rparr>)"
  by (auto simp: same_outside_def)

lemma same_outside_via_handle:
  "via_handle h f tbl = Inr tbl' \<Longrightarrow> h \<in> S \<Longrightarrow> same_outside S tbl tbl'"
  by (auto simp: via_handle_def split: option.splits sum.splits)

lemma same_outside_promote [simp]:
  "name \<in> S \<Longrightarrow> same_outside S tbl (promote_column tbl name nd k cp)"
  by (simp add: promote_column_def)

lemma get_column_Inr: "get_column tbl name = Inr h \<Longrightarrow> h = name \<and> tbl_columns tbl name \<noteq> None"
  by (auto simp: get_column_def split: option.splits)

lemma promote_to_string_frame:
  assumes "promote_to_string ld array name np_dtype cidx is_update i tbl = Inr step"
  shows "\<exists>tbl'. step = RETURN tbl' \<and> same_outside {name} tbl tbl'"
proof -
  let ?tbl1 = "promote_column tbl name DTYPE_STR i False"
  from assms obtain col1 tbl2 where
    g: "get_column ?tbl1 name = Inr col1" and
    v: "via_handle col1 (\<lambda>c. fill_string_iter ld array c name np_dtype DTYPE_STR cidx is_update) ?tbl1
          = Inr tbl2" and
    s: "step = RETURN tbl2"
    by (auto simp: promote_to_string_def Let_def split: sum.splits)
  from g have "col1 = name" by (simp add: get_column_Inr)
  with v have "same_outside {name} ?tbl1 tbl2" by (auto intro: same_outside_via_handle)
  moreover have "same_outside {name} tbl ?tbl1" by simp
  ultimately have "same_outside {name} tbl tbl2" by (rule same_outside_trans [rotated])
  with s show ?thesis by blast
qed

lemma fill_numeric_row_frame:
  assumes "fill_numeric_row ld ptr name np_dtype cidx is_update i tbl col type = Inr step"
  shows "(\<exists>tbl'. step = RETURN tbl' \<and> same_outside {col, name} tbl tbl')
       \<or> (\<exists>tbl' col' type'. step = NEXT tbl' col' type' \<and> same_outside {col, name} tbl tbl'
             \<and> (col' = col \<or> col' = name))"
proof (cases "npy_isnan (read_double ptr i)")
  case True
  with assms show ?thesis by (cases is_update) (auto simp: fill_numeric_row_def)
next
  case nan: False
  show ?thesis
  proof (cases "type = DTYPE_INT32 \<and> outside_int32 (read_double ptr i)")
    case True
    with assms nan obtain col1 where
      "get_column (promote_column tbl name DTYPE_FLOAT64 i True) name = Inr col1"
      "step = NEXT (upd_col col1 (set_nth i (S_FLOAT64 (read_double ptr i)))
                     (promote_column tbl name DTYPE_FLOAT64 i True)) col1 DTYPE_FLOAT64"
      by (auto simp: fill_numeric_row_def outside_int32_iff Let_def split: sum.splits)
    moreover from this have "col1 = name" by (simp add: get_column_Inr)
    moreover have "same_outside {col, name} tbl
            (upd_col name (set_nth i (S_FLOAT64 (read_double ptr i)))
                     (promote_column tbl name DTYPE_FLOAT64 i True))"
      by (rule same_outside_trans [of _ _ "promote_column tbl name DTYPE_FLOAT64 i True"])
         simp_all
    ultimately show ?thesis by simp
  next
    case False
    then have "fill_numeric_row ld ptr name np_dtype cidx is_update i tbl col type =
           Inr (NEXT (upd_col col (map_row i (numeric_row ptr np_dtype type is_update i)) tbl) col type)"
      by (intro fill_numeric_row_plain) auto
    with assms show ?thesis by auto
  qed
qed

lemma fill_numeric_rows_frame:
  "fill_numeric_rows ld ptr name np_dtype cidx is_update xs tbl col type = Inr tbl'
     \<Longrightarrow> same_outside {col, name} tbl tbl'"
proof (induction xs arbitrary: tbl col type)
  case Nil
  then show ?case by simp
next
  case (Cons x xs)
  from Cons.prems obtain step where
    st: "fill_numeric_row ld ptr name np_dtype cidx is_update x tbl col type = Inr step"
    by (auto split: sum.splits)
  from fill_numeric_row_frame [OF st] consider
      (ret) t1 where "step = RETURN t1" "same_outside {col, name} tbl t1"
    | (nxt) t1 col' type' where "step = NEXT t1 col' type'" "same_outside {col, name} tbl t1"
        "col' = col \<or> col' = name"
    by blast
  then show ?case
  proof cases
    case ret
    with Cons.prems st show ?thesis by simp
  next
    case nxt
    with Cons.prems st have
      "fill_numeric_rows ld ptr name np_dtype cidx is_update xs t1 col' type' = Inr tbl'"
      by simp
    then have "same_outside {col', name} t1 tbl'" by (rule Cons.IH)
    with nxt(3) have "same_outside {col, name} t1 tbl'" by (auto intro: same_outside_mono)
    with nxt(2) show ?thesis by (rule same_outside_trans)
  qed
qed

lemma fill_column_iter_frame:
  assumes "fill_column_iter ld array tbl col name np_dtype type cidx is_update = Inr tbl'"
  shows "same_outside {col, name} tbl tbl'"
proof -
  have num: "fill_numeric_iter ld array tbl col name np_dtype type cidx is_update = Inr tbl'
             \<Longrightarrow> same_outside {col, name} tbl tbl'"
    by (auto simp: fill_numeric_iter_def split: if_splits option.splits
             intro: fill_numeric_rows_frame)
  from assms show ?thesis
    by (cases type)
       (auto simp: fill_column_iter_def split: if_splits intro: num same_outside_via_handle)
qed

lemma fill_column_frame:
  assumes "fill_column ld tbl col name type cidx is_update = Inr tbl'"
  shows "same_outside {col, name} tbl tbl'"
proof -
  from assms obtain nidx array where
    init: "m_init ld" and
    arr: "nc_array (get_numpy_column (m_accessor ld) name type) = Some array" and
    idx: "find_index_of name (m_names ld) = Some nidx"
    by (auto simp: fill_column_def Let_def split: if_splits option.splits)
  let ?np = "m_types ld ! nidx"
  show ?thesis
  proof (cases "?np = DTYPE_INT64 \<and> (type = DTYPE_INT32 \<or> type = DTYPE_FLOAT64)")
    case True
    with assms init arr idx
    have "fill_column_iter ld array tbl col name ?np type cidx is_update = Inr tbl'"
      by (auto simp: fill_column_def Let_def)
    then show ?thesis by (rule fill_column_iter_frame)
  next
    case False
    with assms init arr idx obtain c where c: "tbl_columns tbl col = Some c"
      by (auto simp: fill_column_def Let_def split: option.splits)
    show ?thesis
    proof (cases "is_numeric_dtype ?np")
      case True
      from copy_array_ok [OF init True, of array c 0] obtain c1 where
        "copy_array ld array c ?np 0 = Inr (FILL_SUCCEED, c1)" by blast
      with assms init arr idx False c show ?thesis
        by (auto simp: fill_column_def Let_def)
    next
      case nn: False
      from copy_array_fail [OF init nn, of array c 0] assms init arr idx False c
      have "fill_column_iter ld array (tbl\<lparr>tbl_columns := (tbl_columns tbl)(col \<mapsto> c)\<rparr>)
              col name ?np type cidx is_update = Inr tbl'"
        by (auto simp: fill_column_def Let_def)
      then have "same_outside {col, name} (tbl\<lparr>tbl_columns := (tbl_columns tbl)(col \<mapsto> c)\<rparr>) tbl'"
        by (rule fill_column_iter_frame)
      moreover have "same_outside {col, name} tbl (tbl\<lparr>tbl_columns := (tbl_columns tbl)(col \<mapsto> c)\<rparr>)"
        by simp
      ultimately show ?thesis by (rule same_outside_trans [rotated])
    qed
  qed
qed

section \<open>fill\_table: the schema loop and the index columns\<close>

lemma fill_index_rows_fold:
  assumes "limit \<noteq> 0" and "key_col \<noteq> okey_col"
  shows "tbl_columns tbl key_col = Some ck \<Longrightarrow> tbl_columns tbl okey_col = Some co \<Longrightarrow>
         fill_index_rows offset limit key_col okey_col xs tbl =
           Inr (tbl\<lparr>tbl_columns := (tbl_columns tbl)
                  (key_col \<mapsto> fold (\<lambda>i. map_row i (\<lambda>r. index_row offset limit i)) xs ck,
                   okey_col \<mapsto> fold (\<lambda>i. map_row i (\<lambda>r. index_row offset limit i)) xs co)\<rparr>)"
proof (induction xs arbitrary: tbl ck co)
  case Nil
  then show ?case by (simp add: map_upd_triv)
next
  case (Cons x xs)
  let ?g = "\<lambda>i. map_row i (\<lambda>r. index_row offset limit i)"
  let ?t = "upd_col okey_col (set_nth x (S_INT32 ((word_of_nat x + offset) mod limit)))
             (upd_col key_col (set_nth x (S_INT32 ((word_of_nat x + offset) mod limit))) tbl)"
  have t: "?t = tbl\<lparr>tbl_columns := (tbl_columns tbl)(key_col \<mapsto> ?g x ck, okey_col \<mapsto> ?g x co)\<rparr>"
    using Cons.prems assms(2)
    by (simp add: upd_col_def set_nth_map_row index_row_def)
  have k: "tbl_columns ?t key_col = Some (?g x ck)" and o: "tbl_columns ?t okey_col = Some (?g x co)"
    using assms(2) by (simp_all add: t)
  have e: "?t\<lparr>tbl_columns := (tbl_columns ?t)(key_col \<mapsto> A, okey_col \<mapsto> B)\<rparr>
           = tbl\<lparr>tbl_columns := (tbl_columns tbl)(key_col \<mapsto> A, okey_col \<mapsto> B)\<rparr>" for A B
    unfolding t by (simp add: fun_eq_iff)
  have "fill_index_rows offset limit key_col okey_col (x # xs) tbl =
          fill_index_rows offset limit key_col okey_col xs ?t"
    using assms(1) by simp
  also have "\<dots> = Inr (?t\<lparr>tbl_columns := (tbl_columns ?t)
                  (key_col \<mapsto> fold ?g xs (?g x ck), okey_col \<mapsto> fold ?g xs (?g x co))\<rparr>)"
    by (rule Cons.IH [OF k o])
  finally show ?case by (simp only: e fold_simps comp_def)
qed

lemma add_column_size [simp]: "tbl_size (fst (add_column tbl name dtype certain)) = tbl_size tbl"
  by (simp add: add_column_def)

lemma clone_column_Inr:
  "clone_column tbl src dst = Inr tbl' \<Longrightarrow>
   \<exists>c. tbl_columns tbl src = Some c \<and> tbl' = tbl\<lparr>tbl_columns := (tbl_columns tbl)(dst \<mapsto> c)\<rparr>"
  by (auto simp: clone_column_def split: option.splits)

lemma fill_table_columns_flag:
  "fill_table_columns ld is_update cidx schema b tbl = Inr (tbl', b') \<Longrightarrow>
   b' = (b \<or> ''__INDEX__'' \<in> fst ` set schema)"
proof (induction schema arbitrary: cidx b tbl)
  case Nil
  then show ?case by simp
next
  case (Cons nt schema)
  obtain name type where nt: "nt = (name, type)" by (cases nt)
  show ?case
  proof (cases "name = ''__INDEX__''")
    case True
    with Cons.prems nt obtain tbl3 where
      "fill_table_columns ld is_update (Suc cidx) schema True tbl3 = Inr (tbl', b')"
      by (auto split: sum.splits prod.splits)
    from Cons.IH [OF this] True nt show ?thesis by simp
  next
    case False
    with Cons.prems nt obtain tbl1 where
      "fill_table_columns ld is_update (Suc cidx) schema b tbl1 = Inr (tbl', b')"
      by (auto split: sum.splits)
    from Cons.IH [OF this] False nt show ?thesis by auto
  qed
qed

lemma fill_table_columns_size:
  "fill_table_columns ld is_update cidx schema b tbl = Inr (tbl', b') \<Longrightarrow>
   tbl_size tbl' = tbl_size tbl"
proof (induction schema arbitrary: cidx b tbl)
  case Nil
  then show ?case by simp
next
  case (Cons nt schema)
  obtain name type where nt: "nt = (name, type)" by (cases nt)
  show ?case
  proof (cases "name = ''__INDEX__''")
    case True
    let ?tbl1 = "fst (add_column tbl ''psp_pkey'' type True)"
    from Cons.prems nt True obtain tbl2 tbl3 where
      f: "fill_column ld ?tbl1 ''psp_pkey'' ''__INDEX__'' type cidx is_update = Inr tbl2" and
      c: "clone_column tbl2 ''psp_pkey'' ''psp_okey'' = Inr tbl3" and
      r: "fill_table_columns ld is_update (Suc cidx) schema True tbl3 = Inr (tbl', b')"
      by (auto simp: add_column_def split: sum.splits)
    from fill_column_frame [OF f] have "tbl_size tbl2 = tbl_size tbl"
      by (simp add: same_outside_def)
    moreover from clone_column_Inr [OF c] have "tbl_size tbl3 = tbl_size tbl2" by auto
    ultimately show ?thesis using Cons.IH [OF r] by simp
  next
    case False
    with Cons.prems nt obtain col tbl1 where
      f: "fill_column ld tbl col name type cidx is_update = Inr tbl1" and
      r: "fill_table_columns ld is_update (Suc cidx) schema b tbl1 = Inr (tbl', b')"
      by (auto split: sum.splits)
    from fill_column_frame [OF f] have "tbl_size tbl1 = tbl_size tbl"
      by (simp add: same_outside_def)
    then show ?thesis using Cons.IH [OF r] by simp
  qed
qed

lemma fill_table_columns_keys:
  assumes "fill_table_columns ld is_update cidx schema b tbl = Inr (tbl', b')"
      and "''psp_pkey'' \<notin> fst ` set schema" and "''psp_okey'' \<notin> fst ` set schema"
      and "b \<Longrightarrow> keys_equal tbl"
  shows "b' \<Longrightarrow> keys_equal tbl'"
  using assms
proof (induction schema arbitrary: cidx b tbl)
  case Nil
  then show ?case by simp
next
  case (Cons nt schema)
  obtain name type where nt: "nt = (name, type)" by (cases nt)
  from Cons.prems nt have rest: "''psp_pkey'' \<notin> fst ` set schema" "''psp_okey'' \<notin> fst ` set schema"
    and nm: "name \<noteq> ''psp_pkey''" "name \<noteq> ''psp_okey''"
    by auto
  show ?case
  proof (cases "name = ''__INDEX__''")
    case True
    let ?tbl1 = "fst (add_column tbl ''psp_pkey'' type True)"
    from Cons.prems(2) nt True obtain tbl2 tbl3 where
      c: "clone_column tbl2 ''psp_pkey'' ''psp_okey'' = Inr tbl3" and
      r: "fill_table_columns ld is_update (Suc cidx) schema True tbl3 = Inr (tbl', b')"
      by (auto simp: add_column_def split: sum.splits)
    from clone_column_Inr [OF c] have "keys_equal tbl3" by (auto simp: keys_equal_def)
    with Cons.IH [OF Cons.prems(1) r rest] show ?thesis by simp
  next
    case False
    with Cons.prems(2) nt obtain col tbl1 where
      g: "get_column tbl name = Inr col" and
      f: "fill_column ld tbl col name type cidx is_update = Inr tbl1" and
      r: "fill_table_columns ld is_update (Suc cidx) schema b tbl1 = Inr (tbl', b')"
      by (auto split: sum.splits)
    from g have "col = name" by (simp add: get_column_Inr)
    with fill_column_frame [OF f] nm have
      "tbl_columns tbl1 ''psp_pkey'' = tbl_columns tbl ''psp_pkey''"
      "tbl_columns tbl1 ''psp_okey'' = tbl_columns tbl ''psp_okey''"
      by (simp_all add: same_outside_def)
    with Cons.prems(5) have "b \<Longrightarrow> keys_equal tbl1" by (simp add: keys_equal_def)
    with Cons.IH [OF Cons.prems(1) r rest] show ?thesis by simp
  qed
qed

lemma fill_table_generated:
  assumes "m_init ld"
      and "fill_table_columns ld is_update 0 input_schema False tbl = Inr (tbl1, b)"
      and "''__INDEX__'' \<notin> fst ` set input_schema"
  shows "fill_table ld tbl input_schema [] offset limit is_update =
           fill_index_rows offset limit ''psp_pkey'' ''psp_okey'' [0..<tbl_size tbl]
             (tbl1\<lparr>tbl_columns := (tbl_columns tbl1)
                 (''psp_pkey'' \<mapsto> new_column DTYPE_INT32 (tbl_size tbl),
                  ''psp_okey'' \<mapsto> new_column DTYPE_INT32 (tbl_size tbl))\<rparr>)"
proof -
  from fill_table_columns_flag [OF assms(2)] assms(3) have "\<not> b" by simp
  moreover from fill_table_columns_size [OF assms(2)] have "tbl_size tbl1 = tbl_size tbl" .
  ultimately show ?thesis
    using assms(1,2) by (simp add: fill_table_def add_column_def)
qed

lemma generated_keys:
  assumes "limit \<noteq> 0"
  shows "fill_index_rows offset limit ''psp_pkey'' ''psp_okey'' xs
           (tbl1\<lparr>tbl_columns := (tbl_columns tbl1)
               (''psp_pkey'' \<mapsto> new_column DTYPE_INT32 n, ''psp_okey'' \<mapsto> new_column DTYPE_INT32 n)\<rparr>)
         = Inr (tbl1\<lparr>tbl_columns := (tbl_columns tbl1)
               (''psp_pkey'' \<mapsto> fold (\<lambda>i. map_row i (\<lambda>r. index_row offset limit i)) xs
                                  (new_column DTYPE_INT32 n),
                ''psp_okey'' \<mapsto> fold (\<lambda>i. map_row i (\<lambda>r. index_row offset limit i)) xs
                                  (new_column DTYPE_INT32 n))\<rparr>)"
proof -
  let ?t = "tbl1\<lparr>tbl_columns := (tbl_columns tbl1)
               (''psp_pkey'' \<mapsto> new_column DTYPE_INT32 n, ''psp_okey'' \<mapsto> new_column DTYPE_INT32 n)\<rparr>"
  have k: "tbl_columns ?t ''psp_pkey'' = Some (new_column DTYPE_INT32 n)" by simp
  have o: "tbl_columns ?t ''psp_okey'' = Some (new_column DTYPE_INT32 n)" by simp
  have ne: "''psp_pkey'' \<noteq> ''psp_okey''" by simp
  show ?thesis
    unfolding fill_index_rows_fold [OF assms ne k o] by (simp add: fun_eq_iff)
qed

lemma fill_index_rows_zero:
  "fill_index_rows offset 0 key_col okey_col xs tbl = Inr tbl' \<Longrightarrow> xs = [] \<and> tbl' = tbl"
  by (cases xs) simp_all

lemmas example_eval =
  example_loader_def example_table_def example_empty_table_def example_index_loader_def
  new_column_def col_size_def column_of_def add_column_def get_column_def clone_column_def
  via_handle_def upd_col_def set_nth_def unset_def clear_def mark_row_def is_none_def Let_def






text \<open>
  Claim C3, as amended. \<open>fill_table\<close> makes no check of the limit. When it generates
  row-number index values (no column named \<open>__INDEX__\<close>, no index name) after the
  schema's columns have been filled, it returns for every limit other than zero, and
  also for the limit zero when the table has no rows, since the loop then takes no
  remainder.
\<close>

theorem limit_is_not_checked:
  assumes "m_init ld"
      and "fill_table_columns ld is_update 0 input_schema False tbl = Inr (tbl1, b)"
      and "''__INDEX__'' \<notin> fst ` set input_schema"
      and "limit \<noteq> 0 \<or> tbl_size tbl = 0"
  shows "\<exists>tbl'. fill_table ld tbl input_schema [] offset limit is_update = Inr tbl'"
proof (cases "limit = 0")
  case True
  with assms(4) have "tbl_size tbl = 0" by simp
  then show ?thesis by (simp add: fill_table_generated [OF assms(1,2,3)])
next
  case False
  then show ?thesis
    by (simp only: fill_table_generated [OF assms(1,2,3)] generated_keys [OF False]) blast
qed


theorem limit_is_not_checked_witness:
  "m_init (example_loader DTYPE_INT32 [] [] [])
   \<and> fill_table_columns (example_loader DTYPE_INT32 [] [] []) False 0 [] False (example_empty_table 0)
       = Inr (example_empty_table 0, False)
   \<and> ''__INDEX__'' \<notin> fst ` set ([] :: t_schema)
   \<and> tbl_size (example_empty_table 0) = 0
   \<and> (\<exists>tbl'. fill_table (example_loader DTYPE_INT32 [] [] []) (example_empty_table 0) [] [] 5 0 False
                = Inr tbl')"
proof -
  let ?ld = "example_loader DTYPE_INT32 [] [] []"
  let ?tbl = "example_empty_table 0"
  have h1: "m_init ?ld" by (simp add: example_loader_def)
  have h2: "fill_table_columns ?ld False 0 [] False ?tbl = Inr (?tbl, False)" by simp
  have h3: "''__INDEX__'' \<notin> fst ` set ([] :: t_schema)" by simp
  have h4: "tbl_size ?tbl = 0" by (simp add: example_empty_table_def)
  have h4': "(0 :: 32 word) \<noteq> 0 \<or> tbl_size ?tbl = 0" using h4 by simp
  from limit_is_not_checked [OF h1 h2 h3 h4', of 5] show ?thesis using h1 h2 h3 h4 by blast
qed


text \<open>
  Claim C3 as stated fails: with limit 0 and a table of no rows the call returns, with
  both index columns created; with limit 0 and a table of one row the loop does take
  the remainder by zero.
\<close>

theorem invalid_limit_counterexample:
  "column_of (fill_table (example_loader DTYPE_INT32 [] [] []) (example_empty_table 0) [] [] 5 0 False)
     ''psp_pkey'' = Some \<lparr>col_dtype = DTYPE_INT32, col_rows = []\<rparr>
   \<and> fill_table (example_loader DTYPE_INT32 [] [] []) (example_empty_table 1) [] [] 5 0 False
     = Inl RemainderByZero"
  by (simp add: fill_table_def example_eval)


text \<open>
  Claim C9, as amended. After every call of \<open>fill_table\<close> that returns, on a schema
  with no column named \<open>psp_pkey\<close> or \<open>psp_okey\<close>, the table holds both index columns
  and they are equal, row for row: in the path of the \<open>__INDEX__\<close> column, in the
  path of an explicit index column and in the path of generated row numbers.
\<close>

theorem index_columns_identical:
  assumes "fill_table ld tbl input_schema index offset limit is_update = Inr tbl'"
      and "''psp_pkey'' \<notin> fst ` set input_schema" and "''psp_okey'' \<notin> fst ` set input_schema"
  shows "\<exists>c. tbl_columns tbl' ''psp_pkey'' = Some c \<and> tbl_columns tbl' ''psp_okey'' = Some c"
proof -
  from assms(1) obtain tbl1 b where
    init: "m_init ld" and
    cols: "fill_table_columns ld is_update 0 input_schema False tbl = Inr (tbl1, b)"
    by (auto simp: fill_table_def split: if_splits sum.splits)
  show ?thesis
  proof (cases b)
    case True
    with assms(1) init cols have "tbl' = tbl1" by (simp add: fill_table_def)
    moreover from fill_table_columns_keys [OF cols assms(2,3)] True have "keys_equal tbl1" by simp
    ultimately show ?thesis by (simp add: keys_equal_def)
  next
    case nb: False
    show ?thesis
    proof (cases "index = []")
      case True
      from fill_table_columns_flag [OF cols] nb have ns: "''__INDEX__'' \<notin> fst ` set input_schema"
        by simp
      let ?t = "tbl1\<lparr>tbl_columns := (tbl_columns tbl1)
                 (''psp_pkey'' \<mapsto> new_column DTYPE_INT32 (tbl_size tbl),
                  ''psp_okey'' \<mapsto> new_column DTYPE_INT32 (tbl_size tbl))\<rparr>"
      from assms(1) True fill_table_generated [OF init cols ns, of offset limit]
      have r: "fill_index_rows offset limit ''psp_pkey'' ''psp_okey'' [0..<tbl_size tbl] ?t = Inr tbl'"
        by simp
      show ?thesis
      proof (cases "limit = 0")
        case z: True
        with r fill_index_rows_zero [of offset "''psp_pkey''" "''psp_okey''" "[0..<tbl_size tbl]" ?t tbl']
        have "tbl' = ?t" by simp
        then show ?thesis by simp
      next
        case False
        from r show ?thesis unfolding generated_keys [OF False] by auto
      qed
    next
      case False
      with assms(1) init cols nb obtain tbl2 where
        c1: "clone_column tbl1 index ''psp_pkey'' = Inr tbl2" and
        c2: "clone_column tbl2 index ''psp_okey'' = Inr tbl'"
        by (auto simp: fill_table_def split: sum.splits)
      from clone_column_Inr [OF c1] clone_column_Inr [OF c2] show ?thesis
        by (auto split: if_splits)
    qed
  qed
qed



theorem index_columns_identical_witness:
  "''psp_pkey'' \<notin> fst ` set [(''__INDEX__'', DTYPE_STR)]
   \<and> ''psp_okey'' \<notin> fst ` set [(''__INDEX__'', DTYPE_STR)]
   \<and> (\<exists>tbl' c. fill_table example_index_loader (example_empty_table 1) [(''__INDEX__'', DTYPE_STR)]
                    [] 0 1 False = Inr tbl'
              \<and> tbl_columns tbl' ''psp_pkey'' = Some c \<and> tbl_columns tbl' ''psp_okey'' = Some c)"
proof -
  have "\<exists>tbl'. fill_table example_index_loader (example_empty_table 1) [(''__INDEX__'', DTYPE_STR)]
                    [] 0 1 False = Inr tbl'"
    by (simp add: fill_table_def fill_column_def fill_column_iter_def fill_string_iter_def
          copy_array_def example_eval)
  then obtain tbl' where
    r: "fill_table example_index_loader (example_empty_table 1) [(''__INDEX__'', DTYPE_STR)]
          [] 0 1 False = Inr tbl'" ..
  have h2: "''psp_pkey'' \<notin> fst ` set [(''__INDEX__'', DTYPE_STR)]" by simp
  have h3: "''psp_okey'' \<notin> fst ` set [(''__INDEX__'', DTYPE_STR)]" by simp
  from index_columns_identical [OF r h2 h3] r show ?thesis using h2 h3 by blast
qed


text \<open>
  Claim C9 as stated fails: a schema that has, after \<open>__INDEX__\<close>, a column named
  \<open>psp_okey\<close> has that column filled from its own source after the clone, and the two
  index columns differ.
\<close>

theorem index_columns_identical_counterexample:
  "column_of (fill_table example_index_loader (example_empty_table 1)
                [(''__INDEX__'', DTYPE_STR), (''psp_okey'', DTYPE_STR)] [] 0 1 False) ''psp_pkey''
     = Some \<lparr>col_dtype = DTYPE_STR, col_rows = [(S_STR ''k'', ROW_PRESENT)]\<rparr>
   \<and> column_of (fill_table example_index_loader (example_empty_table 1)
                [(''__INDEX__'', DTYPE_STR), (''psp_okey'', DTYPE_STR)] [] 0 1 False) ''psp_okey''
     = Some \<lparr>col_dtype = DTYPE_STR, col_rows = [(S_STR ''x'', ROW_PRESENT)]\<rparr>"
  by (simp add: fill_table_def fill_column_def fill_column_iter_def fill_string_iter_def
        copy_array_def example_eval)

section \<open>The marks that the fills leave\<close>

lemma mark_row_length [simp]: "length (col_rows (mark_row s i c)) = length (col_rows c)"
  by (simp add: mark_row_def)

lemma set_nth_length [simp]: "length (col_rows (set_nth i v c)) = length (col_rows c)"
  by (simp add: set_nth_def)

lemma unset_length [simp]: "length (col_rows (unset i c)) = length (col_rows c)"
  by (simp add: unset_def)

lemma clear_length [simp]: "length (col_rows (clear i c)) = length (col_rows c)"
  by (simp add: clear_def)

lemma unset_snd:
  "j < length (col_rows c) \<Longrightarrow>
   snd (col_rows (unset i c) ! j) = (if j = i then ROW_UNSET else snd (col_rows c ! j))"
  by (simp add: unset_def mark_row_def nth_list_update)

lemma clear_snd:
  "j < length (col_rows c) \<Longrightarrow>
   snd (col_rows (clear i c) ! j) = (if j = i then ROW_CLEARED else snd (col_rows c ! j))"
  by (simp add: clear_def mark_row_def nth_list_update)

lemma set_nth_snd:
  "j < length (col_rows c) \<Longrightarrow>
   snd (col_rows (set_nth i v c) ! j) = (if j = i then ROW_PRESENT else snd (col_rows c ! j))"
  by (simp add: set_nth_def nth_list_update)

lemma fill_string_rows_marks:
  "fill_string_rows acc cidx type is_update xs col = Inr col' \<Longrightarrow>
   length (col_rows col') = length (col_rows col)
   \<and> (\<forall>j<length (col_rows col).
         snd (col_rows col' ! j) =
           (if j \<in> set xs
            then (if is_none (marshal acc cidx j type) then absent_mark is_update else ROW_PRESENT)
            else snd (col_rows col ! j)))"
proof (induction xs arbitrary: col)
  case Nil
  then show ?case by simp
next
  case (Cons x xs)
  show ?case
  proof (cases "is_none (marshal acc cidx x type)")
    case True
    with Cons.prems have
      "fill_string_rows acc cidx type is_update xs (if is_update then unset x col else clear x col)
         = Inr col'"
      by simp
    from Cons.IH [OF this] True show ?thesis
      by (cases is_update) (auto simp: unset_snd clear_snd absent_mark_def)
  next
    case False
    with Cons.prems obtain elem where
      "fill_string_rows acc cidx type is_update xs (set_nth x (S_STR elem) col) = Inr col'"
      by (auto simp: Let_def split: sum.splits)
    from Cons.IH [OF this] False show ?thesis by (auto simp: set_nth_snd)
  qed
qed

lemma fill_bool_rows_marks:
  "fill_bool_rows acc cidx type is_update xs col = Inr col' \<Longrightarrow>
   length (col_rows col') = length (col_rows col)
   \<and> (\<forall>j<length (col_rows col).
         snd (col_rows col' ! j) =
           (if j \<in> set xs
            then (if is_none (marshal acc cidx j type) then absent_mark is_update else ROW_PRESENT)
            else snd (col_rows col ! j)))"
proof (induction xs arbitrary: col)
  case Nil
  then show ?case by simp
next
  case (Cons x xs)
  show ?case
  proof (cases "is_none (marshal acc cidx x type)")
    case True
    with Cons.prems have
      "fill_bool_rows acc cidx type is_update xs (if is_update then unset x col else clear x col)
         = Inr col'"
      by simp
    from Cons.IH [OF this] True show ?thesis
      by (cases is_update) (auto simp: unset_snd clear_snd absent_mark_def)
  next
    case False
    with Cons.prems obtain b where
      "fill_bool_rows acc cidx type is_update xs (set_nth x (S_BOOL b) col) = Inr col'"
      by (auto simp: Let_def split: sum.splits)
    from Cons.IH [OF this] False show ?thesis by (auto simp: set_nth_snd)
  qed
qed

lemma fill_date_rows_marks:
  "fill_date_rows acc cidx type is_update xs col = Inr col' \<Longrightarrow>
   length (col_rows col') = length (col_rows col)
   \<and> (\<forall>j<length (col_rows col).
         snd (col_rows col' ! j) =
           (if j \<in> set xs
            then (if is_none (marshal acc cidx j type) then absent_mark is_update else ROW_PRESENT)
            else snd (col_rows col ! j)))"
proof (induction xs arbitrary: col)
  case Nil
  then show ?case by simp
next
  case (Cons x xs)
  show ?case
  proof (cases "is_none (marshal acc cidx x type)")
    case True
    with Cons.prems have
      "fill_date_rows acc cidx type is_update xs (if is_update then unset x col else clear x col)
         = Inr col'"
      by simp
    from Cons.IH [OF this] True show ?thesis
      by (cases is_update) (auto simp: unset_snd clear_snd absent_mark_def)
  next
    case False
    with Cons.prems obtain d where
      "fill_date_rows acc cidx type is_update xs
         (set_nth x (S_DATE (map_at d ''year'') (map_at d ''month'') (map_at d ''day'')) col) = Inr col'"
      by (auto simp: Let_def split: sum.splits)
    from Cons.IH [OF this] False show ?thesis by (auto simp: set_nth_snd)
  qed
qed

lemma numeric_row_snd:
  "is_numeric_dtype type \<Longrightarrow>
   snd (numeric_row ptr np_dtype type is_update j r) =
     (if npy_isnan (read_double ptr j) then absent_mark is_update else ROW_PRESENT)"
  by (simp add: numeric_row_def)

lemma fill_numeric_iter_marks:
  assumes "m_init ld" and "tbl_columns tbl col = Some c" and "is_numeric_dtype type"
      and "type = DTYPE_INT32 \<Longrightarrow> col = name"
  shows "\<exists>tbl' c'. fill_numeric_iter ld ptr tbl col name np_dtype type cidx is_update = Inr tbl'
           \<and> tbl_columns tbl' col = Some c' \<and> col_size c' = col_size c
           \<and> (\<forall>j<col_size c.
                 snd (col_rows c' ! j) =
                   (if npy_isnan (read_double ptr j) then absent_mark is_update else ROW_PRESENT))"
proof (cases "type = DTYPE_INT32 \<and> (\<exists>i. i < col_size c \<and> outside_int32 (read_double ptr i))")
  case False
  let ?c' = "fold (\<lambda>i. map_row i (numeric_row ptr np_dtype type is_update i)) [0..<col_size c] c"
  have "fill_numeric_iter ld ptr tbl col name np_dtype type cidx is_update =
          Inr (tbl\<lparr>tbl_columns := (tbl_columns tbl)(col \<mapsto> ?c')\<rparr>)"
    using assms(1,2) False by (intro fill_numeric_iter_plain) auto
  moreover have "col_size ?c' = col_size c" by (simp add: col_size_def)
  moreover have "snd (col_rows ?c' ! j) =
                   (if npy_isnan (read_double ptr j) then absent_mark is_update else ROW_PRESENT)"
    if "j < col_size c" for j
    using that assms(3) by (simp add: fold_map_row_nth col_size_def numeric_row_snd)
  ultimately show ?thesis by simp
next
  case True
  then have ty: "type = DTYPE_INT32" and nm: "col = name" using assms(4) by simp_all
  from True obtain k where
    k: "k < col_size c" "outside_int32 (read_double ptr k)" and
    least: "\<forall>j<k. \<not> (j < col_size c \<and> outside_int32 (read_double ptr j))"
    using exists_least_iff [of "\<lambda>i. i < col_size c \<and> outside_int32 (read_double ptr i)"] by auto
  from k(1) least have before: "\<forall>j<k. \<not> outside_int32 (read_double ptr j)" by auto
  let ?gI = "\<lambda>i. map_row i (numeric_row ptr np_dtype DTYPE_INT32 is_update i)"
  let ?gF = "\<lambda>i. map_row i (numeric_row ptr np_dtype DTYPE_FLOAT64 is_update i)"
  let ?A = "fold ?gI [0..<k] c"
  let ?C = "set_nth k (S_FLOAT64 (read_double ptr k)) (promote_col DTYPE_FLOAT64 k True ?A)"
  let ?D = "fold ?gF [Suc k..<col_size c] ?C"
  have run: "fill_numeric_iter ld ptr tbl col name np_dtype type cidx is_update =
               Inr (tbl\<lparr>tbl_columns := (tbl_columns tbl)(col \<mapsto> ?D)\<rparr>)"
    unfolding ty nm [symmetric]
    by (rule fill_numeric_iter_trigger [OF assms(1,2) k before])
  have lenC: "length (col_rows ?C) = col_size c"
    by (simp add: set_nth_map_row col_size_def)
  have sndC: "snd (col_rows ?C ! j) =
                (if j = k then ROW_PRESENT
                 else if j < k
                 then (if npy_isnan (read_double ptr j) then absent_mark is_update else ROW_PRESENT)
                 else ROW_CLEARED)"
    if "j < col_size c" for j
    using that
    by (simp add: set_nth_map_row map_row_nth promote_col_nth fold_map_row_nth col_size_def
          numeric_row_snd is_numeric_dtype_def)
  have sndD: "snd (col_rows ?D ! j) =
                (if npy_isnan (read_double ptr j) then absent_mark is_update else ROW_PRESENT)"
    if "j < col_size c" for j
  proof (cases "k < j")
    case True
    with that lenC show ?thesis
      by (simp add: fold_map_row_nth numeric_row_snd is_numeric_dtype_def)
  next
    case False
    with that lenC have "col_rows ?D ! j = col_rows ?C ! j" by (simp add: fold_map_row_nth)
    with that False sndC [OF that] outside_int32_not_nan [OF k(2)] show ?thesis
      by (cases "j = k") auto
  qed
  have "col_size ?D = col_size c" using lenC by (simp add: col_size_def)
  with run sndD show ?thesis by simp
qed

lemma via_handle_Inr:
  "via_handle h f tbl = Inr tbl' \<Longrightarrow>
   \<exists>c c'. tbl_columns tbl h = Some c \<and> f c = Inr c' \<and> tbl_columns tbl' h = Some c'"
  by (auto simp: via_handle_def split: option.splits sum.splits)

lemma fill_column_iter_marks:
  assumes "m_init ld" and "tbl_columns tbl col = Some c"
      and "is_numeric_dtype type \<or> type = DTYPE_DATE \<or> type = DTYPE_STR \<or> type = DTYPE_BOOL"
      and "type = DTYPE_INT32 \<Longrightarrow> col = name"
      and "fill_column_iter ld array tbl col name np_dtype type cidx is_update = Inr tbl'"
  shows "\<exists>c'. tbl_columns tbl' col = Some c' \<and> col_size c' = col_size c
          \<and> (\<forall>j<col_size c.
                snd (col_rows c' ! j) =
                  (if row_is_absent ld array type cidx j then absent_mark is_update else ROW_PRESENT))"
proof -
  consider (num) "is_numeric_dtype type" | (date) "type = DTYPE_DATE" | (str) "type = DTYPE_STR"
    | (bool) "type = DTYPE_BOOL"
    using assms(3) by blast
  then show ?thesis
  proof cases
    case num
    then have nd: "type \<noteq> DTYPE_DATE" "type \<noteq> DTYPE_STR" "type \<noteq> DTYPE_BOOL" "type \<noteq> DTYPE_TIME"
      by (auto simp: is_numeric_dtype_def)
    with assms(1,5) have
      "fill_numeric_iter ld array tbl col name np_dtype type cidx is_update = Inr tbl'"
      by (cases type) (simp_all add: fill_column_iter_def)
    with fill_numeric_iter_marks [OF assms(1,2) num assms(4), of array np_dtype cidx is_update] nd
    show ?thesis by (auto simp: row_is_absent_def)
  next
    case date
    with assms(1,5) have
      "via_handle col (\<lambda>c. fill_date_iter ld array c name np_dtype type cidx is_update) tbl = Inr tbl'"
      by (simp add: fill_column_iter_def)
    from via_handle_Inr [OF this] assms(1,2) obtain c' where
      "fill_date_rows (m_accessor ld) cidx type is_update [0..<col_size c] c = Inr c'"
      "tbl_columns tbl' col = Some c'"
      by (auto simp: fill_date_iter_def)
    with fill_date_rows_marks [of "m_accessor ld" cidx type is_update "[0..<col_size c]" c c'] date
    show ?thesis by (auto simp: row_is_absent_def col_size_def)
  next
    case str
    with assms(1,5) have
      "via_handle col (\<lambda>c. fill_string_iter ld array c name np_dtype type cidx is_update) tbl = Inr tbl'"
      by (simp add: fill_column_iter_def)
    from via_handle_Inr [OF this] assms(1,2) obtain c' where
      "fill_string_rows (m_accessor ld) cidx type is_update [0..<col_size c] c = Inr c'"
      "tbl_columns tbl' col = Some c'"
      by (auto simp: fill_string_iter_def)
    with fill_string_rows_marks [of "m_accessor ld" cidx type is_update "[0..<col_size c]" c c'] str
    show ?thesis by (auto simp: row_is_absent_def col_size_def)
  next
    case bool
    with assms(1,5) have
      "via_handle col (\<lambda>c. fill_bool_iter ld array c name np_dtype type cidx is_update) tbl = Inr tbl'"
      by (simp add: fill_column_iter_def)
    from via_handle_Inr [OF this] assms(1,2) obtain c' where
      "fill_bool_rows (m_accessor ld) cidx type is_update [0..<col_size c] c = Inr c'"
      "tbl_columns tbl' col = Some c'"
      by (auto simp: fill_bool_iter_def)
    with fill_bool_rows_marks [of "m_accessor ld" cidx type is_update "[0..<col_size c]" c c'] bool
    show ?thesis by (auto simp: row_is_absent_def col_size_def)
  qed
qed

lemma copy_rows_length [simp]: "length (copy_rows rd offset ks rows) = length rows"
  by (induction ks arbitrary: rows) simp_all

lemma copy_array_length:
  "copy_array ld src dest np_dtype offset = Inr (st, dest') \<Longrightarrow>
   length (col_rows dest') = length (col_rows dest)"
  by (cases np_dtype)
     (auto simp: copy_array_def copy_array_helper_def split: if_splits)

lemma valid_raw_fill_length [simp]: "length (col_rows (valid_raw_fill c)) = length (col_rows c)"
  by (simp add: valid_raw_fill_def)

lemma valid_raw_fill_snd:
  "j < length (col_rows c) \<Longrightarrow> snd (col_rows (valid_raw_fill c) ! j) = ROW_PRESENT"
  by (simp add: valid_raw_fill_def)

lemma apply_mask_length [simp]:
  "length (col_rows (apply_mask is_update nulls c)) = length (col_rows c)"
  by (induction nulls arbitrary: c) simp_all

lemma apply_mask_snd:
  "j < length (col_rows c) \<Longrightarrow>
   snd (col_rows (apply_mask is_update nulls c) ! j) =
     (if j \<in> unat ` set nulls then absent_mark is_update else snd (col_rows c ! j))"
proof (induction nulls arbitrary: c)
  case Nil
  then show ?case by simp
next
  case (Cons idx nulls)
  then show ?case
    by (cases is_update) (auto simp: unset_snd clear_snd absent_mark_def)
qed

text \<open>
  Claim C7. (1) When \<open>fill_column\<close> takes the bulk copy (a numeric source type
  outside the mismatch guard), it returns with every row of the column present except
  the rows listed in the null positions, which carry the mark that \<open>is_update\<close>
  selects: \<open>unset\<close> on update, \<open>clear\<close> on load. (2) When the iterative fill of a
  numeric, date, string or bool column returns (for a 32-bit-integer column, through
  the handle of the column named in the fill), the rows that meet the per-row condition
  (the element reads as not-a-number on the numeric path, the cell marshals to no value
  on the date, string and bool paths) carry that same mark, and every other row is
  present: it was neither unset nor cleared.
\<close>

theorem absent_rows_marked_by_is_update:
  "(m_init ld \<and> find_index_of name (m_names ld) = Some nidx
      \<and> nc_array (get_numpy_column (m_accessor ld) name type) = Some array
      \<and> is_numeric_dtype (m_types ld ! nidx)
      \<and> \<not> (m_types ld ! nidx = DTYPE_INT64 \<and> (type = DTYPE_INT32 \<or> type = DTYPE_FLOAT64))
      \<and> tbl_columns tbl col = Some c \<longrightarrow>
      (\<exists>tbl' c'. fill_column ld tbl col name type cidx is_update = Inr tbl'
          \<and> tbl_columns tbl' col = Some c' \<and> col_size c' = col_size c
          \<and> (\<forall>j<col_size c.
                snd (col_rows c' ! j) =
                  (if j \<in> unat ` set (nc_mask (get_numpy_column (m_accessor ld) name type))
                   then absent_mark is_update else ROW_PRESENT))))
   \<and> (m_init ld \<and> tbl_columns tbl col = Some c
      \<and> (is_numeric_dtype type \<or> type = DTYPE_DATE \<or> type = DTYPE_STR \<or> type = DTYPE_BOOL)
      \<and> (type = DTYPE_INT32 \<longrightarrow> col = name)
      \<and> fill_column_iter ld array tbl col name np_dtype type cidx is_update = Inr tbl' \<longrightarrow>
      (\<exists>c'. tbl_columns tbl' col = Some c' \<and> col_size c' = col_size c
          \<and> (\<forall>j<col_size c.
                snd (col_rows c' ! j) =
                  (if row_is_absent ld array type cidx j then absent_mark is_update
                   else ROW_PRESENT))))"
proof (intro conjI impI)
  assume a: "m_init ld \<and> find_index_of name (m_names ld) = Some nidx
      \<and> nc_array (get_numpy_column (m_accessor ld) name type) = Some array
      \<and> is_numeric_dtype (m_types ld ! nidx)
      \<and> \<not> (m_types ld ! nidx = DTYPE_INT64 \<and> (type = DTYPE_INT32 \<or> type = DTYPE_FLOAT64))
      \<and> tbl_columns tbl col = Some c"
  let ?src = "get_numpy_column (m_accessor ld) name type"
  from a copy_array_ok [of ld "m_types ld ! nidx" array c 0] obtain c1 where
    c1: "copy_array ld array c (m_types ld ! nidx) 0 = Inr (FILL_SUCCEED, c1)" by blast
  from copy_array_length [OF c1] have len: "length (col_rows c1) = length (col_rows c)" .
  let ?c' = "apply_mask is_update (nc_mask ?src) (valid_raw_fill c1)"
  have run: "fill_column ld tbl col name type cidx is_update =
               Inr (tbl\<lparr>tbl_columns := (tbl_columns tbl)(col \<mapsto> ?c')\<rparr>)"
    using a c1 by (auto simp: fill_column_def Let_def)
  have "snd (col_rows ?c' ! j) =
          (if j \<in> unat ` set (nc_mask ?src) then absent_mark is_update else ROW_PRESENT)"
    if "j < col_size c" for j
    using that len by (simp add: apply_mask_snd valid_raw_fill_snd col_size_def)
  moreover have "col_size ?c' = col_size c" using len by (simp add: col_size_def)
  ultimately show "\<exists>tbl' c'. fill_column ld tbl col name type cidx is_update = Inr tbl'
          \<and> tbl_columns tbl' col = Some c' \<and> col_size c' = col_size c
          \<and> (\<forall>j<col_size c.
                snd (col_rows c' ! j) =
                  (if j \<in> unat ` set (nc_mask ?src) then absent_mark is_update else ROW_PRESENT))"
    using run by simp
next
  assume b: "m_init ld \<and> tbl_columns tbl col = Some c
      \<and> (is_numeric_dtype type \<or> type = DTYPE_DATE \<or> type = DTYPE_STR \<or> type = DTYPE_BOOL)
      \<and> (type = DTYPE_INT32 \<longrightarrow> col = name)
      \<and> fill_column_iter ld array tbl col name np_dtype type cidx is_update = Inr tbl'"
  then show "\<exists>c'. tbl_columns tbl' col = Some c' \<and> col_size c' = col_size c
          \<and> (\<forall>j<col_size c.
                snd (col_rows c' ! j) =
                  (if row_is_absent ld array type cidx j then absent_mark is_update
                   else ROW_PRESENT))"
    by (intro fill_column_iter_marks [of ld tbl col c type name array np_dtype cidx is_update tbl'])
       auto
qed


theorem absent_rows_marked_by_is_update_witness:
  "m_init (example_loader DTYPE_INT32 [1,0,0,0, 2,0,0,0] [1] [])
   \<and> find_index_of ''a'' (m_names (example_loader DTYPE_INT32 [1,0,0,0, 2,0,0,0] [1] [])) = Some 0
   \<and> is_numeric_dtype (m_types (example_loader DTYPE_INT32 [1,0,0,0, 2,0,0,0] [1] []) ! 0)
   \<and> tbl_columns (example_table DTYPE_INT32 2) ''a'' = Some (new_column DTYPE_INT32 2)
   \<and> (\<exists>tbl' c'. fill_column (example_loader DTYPE_INT32 [1,0,0,0, 2,0,0,0] [1] [])
                     (example_table DTYPE_INT32 2) ''a'' ''a'' DTYPE_INT32 0 True = Inr tbl'
          \<and> tbl_columns tbl' ''a'' = Some c'
          \<and> snd (col_rows c' ! 0) = ROW_PRESENT \<and> snd (col_rows c' ! 1) = ROW_UNSET)
   \<and> m_init (example_loader DTYPE_STR [] [] [PY_NONE, PY_STR ''b''])
   \<and> tbl_columns (example_table DTYPE_STR 2) ''a'' = Some (new_column DTYPE_STR 2)
   \<and> (\<exists>tbl' c'. fill_column_iter (example_loader DTYPE_STR [] [] [PY_NONE, PY_STR ''b'']) (bytes_at [])
                     (example_table DTYPE_STR 2) ''a'' ''a'' DTYPE_STR DTYPE_STR 0 False = Inr tbl'
          \<and> tbl_columns tbl' ''a'' = Some c'
          \<and> snd (col_rows c' ! 0) = ROW_CLEARED \<and> snd (col_rows c' ! 1) = ROW_PRESENT)"
proof -
  let ?ld = "example_loader DTYPE_INT32 [1,0,0,0, 2,0,0,0] [1] []"
  let ?tbl = "example_table DTYPE_INT32 2"
  have h1: "m_init ?ld" by (simp add: example_loader_def)
  have h2: "find_index_of ''a'' (m_names ?ld) = Some 0" by (simp add: example_loader_def)
  have h3: "nc_array (get_numpy_column (m_accessor ?ld) ''a'' DTYPE_INT32)
              = Some (bytes_at [1,0,0,0, 2,0,0,0])"
    by (simp add: example_loader_def)
  have h4: "is_numeric_dtype (m_types ?ld ! 0)"
    by (simp add: example_loader_def is_numeric_dtype_def)
  have h5: "\<not> (m_types ?ld ! 0 = DTYPE_INT64 \<and> (DTYPE_INT32 = DTYPE_INT32 \<or> DTYPE_INT32 = DTYPE_FLOAT64))"
    by (simp add: example_loader_def)
  have h6: "tbl_columns ?tbl ''a'' = Some (new_column DTYPE_INT32 2)"
    by (simp add: example_table_def)
  have m: "nc_mask (get_numpy_column (m_accessor ?ld) ''a'' DTYPE_INT32) = [1]"
    by (simp add: example_loader_def)
  have sz: "col_size (new_column DTYPE_INT32 2) = 2" by (simp add: col_size_def new_column_def)
  from absent_rows_marked_by_is_update
         [where ld = ?ld and name = "''a''" and nidx = 0 and type = DTYPE_INT32
            and array = "bytes_at [1,0,0,0, 2,0,0,0]" and tbl = ?tbl and col = "''a''"
            and c = "new_column DTYPE_INT32 2" and cidx = 0 and is_update = True,
          THEN conjunct1]
       h1 h2 h3 h4 h5 h6
  obtain t1 c1 where
    b1: "fill_column ?ld ?tbl ''a'' ''a'' DTYPE_INT32 0 True = Inr t1"
        "tbl_columns t1 ''a'' = Some c1" and
    b2: "\<forall>j<2. snd (col_rows c1 ! j) = (if j \<in> unat ` set [1 :: 64 word] then absent_mark True else ROW_PRESENT)"
    unfolding m sz by blast
  from b2 have b3: "snd (col_rows c1 ! 0) = ROW_PRESENT" "snd (col_rows c1 ! 1) = ROW_UNSET"
    by (simp_all add: absent_mark_def)
  let ?ls = "example_loader DTYPE_STR [] [] [PY_NONE, PY_STR ''b'']"
  let ?ts = "example_table DTYPE_STR 2"
  have g1: "m_init ?ls" by (simp add: example_loader_def)
  have g2: "tbl_columns ?ts ''a'' = Some (new_column DTYPE_STR 2)" by (simp add: example_table_def)
  have "\<exists>t2. fill_column_iter ?ls (bytes_at []) ?ts ''a'' ''a'' DTYPE_STR DTYPE_STR 0 False = Inr t2"
    by (simp add: fill_column_iter_def fill_string_iter_def example_eval upt_conv_Cons numeral_2_eq_2)
  then obtain t2 where
    g3: "fill_column_iter ?ls (bytes_at []) ?ts ''a'' ''a'' DTYPE_STR DTYPE_STR 0 False = Inr t2" ..
  have ab: "row_is_absent ?ls (bytes_at []) DTYPE_STR 0 0" "\<not> row_is_absent ?ls (bytes_at []) DTYPE_STR 0 1"
    by (simp_all add: row_is_absent_def example_loader_def is_none_def)
  have sz2: "col_size (new_column DTYPE_STR 2) = 2" by (simp add: col_size_def new_column_def)
  from absent_rows_marked_by_is_update
         [where ld = ?ls and name = "''a''" and type = DTYPE_STR and array = "bytes_at []"
            and tbl = ?ts and col = "''a''" and c = "new_column DTYPE_STR 2" and cidx = 0
            and is_update = False and tbl' = t2 and np_dtype = DTYPE_STR and nidx = 0,
          THEN conjunct2]
       g1 g2 g3
  obtain c2 where
    s1: "tbl_columns t2 ''a'' = Some c2" and
    s2: "\<forall>j<2. snd (col_rows c2 ! j) =
           (if row_is_absent ?ls (bytes_at []) DTYPE_STR 0 j then absent_mark False else ROW_PRESENT)"
    unfolding sz2 by auto
  from s2 ab have s3: "snd (col_rows c2 ! 0) = ROW_CLEARED" "snd (col_rows c2 ! 1) = ROW_PRESENT"
    by (simp_all add: absent_mark_def)
  show ?thesis
    using h1 h2 h4 h6 b1 b3 g1 g2 g3 s1 s3 by blast
qed

section \<open>The null positions and the iterative path\<close>

lemma fill_string_rows_cong:
  "marshal acc' = marshal acc \<Longrightarrow>
   fill_string_rows acc' cidx type is_update xs col = fill_string_rows acc cidx type is_update xs col"
  by (induction xs arbitrary: col) (simp_all add: Let_def split: sum.splits)

lemma fill_date_rows_cong:
  "marshal acc' = marshal acc \<Longrightarrow>
   fill_date_rows acc' cidx type is_update xs col = fill_date_rows acc cidx type is_update xs col"
  by (induction xs arbitrary: col) (simp_all add: Let_def split: sum.splits)

lemma fill_bool_rows_cong:
  "marshal acc' = marshal acc \<Longrightarrow>
   fill_bool_rows acc' cidx type is_update xs col = fill_bool_rows acc cidx type is_update xs col"
  by (induction xs arbitrary: col) (simp_all add: Let_def split: sum.splits)

lemma fill_string_iter_cong:
  assumes "m_init ld' = m_init ld" and "marshal (m_accessor ld') = marshal (m_accessor ld)"
  shows "fill_string_iter ld' = fill_string_iter ld"
  using assms by (simp add: fun_eq_iff fill_string_iter_def fill_string_rows_cong)

lemma promote_to_string_cong:
  assumes "m_init ld' = m_init ld" and "marshal (m_accessor ld') = marshal (m_accessor ld)"
  shows "promote_to_string ld' = promote_to_string ld"
  by (simp add: fun_eq_iff promote_to_string_def fill_string_iter_cong [OF assms] Let_def
        split: sum.splits)

lemma fill_numeric_row_cong:
  assumes "m_init ld' = m_init ld" and "marshal (m_accessor ld') = marshal (m_accessor ld)"
  shows "fill_numeric_row ld' ptr name np_dtype cidx is_update i tbl col type =
         fill_numeric_row ld ptr name np_dtype cidx is_update i tbl col type"
  by (cases type) (simp_all add: fill_numeric_row_def promote_to_string_cong [OF assms])

lemma fill_numeric_rows_cong:
  assumes "m_init ld' = m_init ld" and "marshal (m_accessor ld') = marshal (m_accessor ld)"
  shows "fill_numeric_rows ld' ptr name np_dtype cidx is_update xs tbl col type =
         fill_numeric_rows ld ptr name np_dtype cidx is_update xs tbl col type"
  by (induction xs arbitrary: tbl col type)
     (simp_all add: fill_numeric_row_cong [OF assms] split: sum.splits numeric_step.splits)

lemma fill_column_iter_cong:
  assumes "m_init ld' = m_init ld" and "marshal (m_accessor ld') = marshal (m_accessor ld)"
  shows "fill_column_iter ld' array tbl col name np_dtype type cidx is_update =
         fill_column_iter ld array tbl col name np_dtype type cidx is_update"
proof -
  have n: "fill_numeric_iter ld' array tbl col name np_dtype ty cidx is_update =
           fill_numeric_iter ld array tbl col name np_dtype ty cidx is_update" for ty
    by (simp add: fill_numeric_iter_def fill_numeric_rows_cong [OF assms] assms(1)
          split: option.splits)
  have t: "fill_datetime_iter ld' = fill_datetime_iter ld"
    by (simp add: fun_eq_iff fill_datetime_iter_def assms(1))
  have d: "fill_date_iter ld' = fill_date_iter ld"
    using assms by (simp add: fun_eq_iff fill_date_iter_def fill_date_rows_cong)
  have b: "fill_bool_iter ld' = fill_bool_iter ld"
    using assms by (simp add: fun_eq_iff fill_bool_iter_def fill_bool_rows_cong)
  show ?thesis
    by (cases type)
       (simp_all add: fill_column_iter_def n t d b fill_string_iter_cong [OF assms] assms(1))
qed

lemma fill_column_iterative:
  assumes "m_init ld" and "find_index_of name (m_names ld) = Some nidx"
      and "nc_array (get_numpy_column (m_accessor ld) name type) = Some array"
      and "(m_types ld ! nidx = DTYPE_INT64 \<and> (type = DTYPE_INT32 \<or> type = DTYPE_FLOAT64))
           \<or> \<not> is_numeric_dtype (m_types ld ! nidx)"
      and "tbl_columns tbl col = Some c"
  shows "fill_column ld tbl col name type cidx is_update =
           fill_column_iter ld array tbl col name (m_types ld ! nidx) type cidx is_update"
proof (cases "m_types ld ! nidx = DTYPE_INT64 \<and> (type = DTYPE_INT32 \<or> type = DTYPE_FLOAT64)")
  case True
  with assms show ?thesis by (simp add: fill_column_def)
next
  case False
  with assms(4) have nn: "\<not> is_numeric_dtype (m_types ld ! nidx)" by simp
  have t: "tbl\<lparr>tbl_columns := (tbl_columns tbl)(col \<mapsto> c)\<rparr> = tbl"
    using assms(5) by (simp add: map_upd_triv)
  from copy_array_fail [OF assms(1) nn, of array c 0] False assms show ?thesis
    by (auto simp: fill_column_def Let_def t)
qed

text \<open>
  Claim C10. When \<open>fill_column\<close> takes the iterative path (the mismatch guard holds,
  or the source type is none of the ten numeric types), the null-position list of the
  accessor plays no part: replacing the accessor's column lookup by any other that
  gives the same arrays (and whatever null positions) leaves the result of the fill
  the same, destination contents and marks alike. On that path, for a numeric, date,
  string or bool destination, a row ends marked absent exactly when its per-row
  condition holds (the element reads as not-a-number, or the cell marshals to no
  value), and is present otherwise.
\<close>

theorem null_positions_not_read_on_iterative_path:
  assumes "\<forall>n t. nc_array (g' n t) = nc_array (get_numpy_column (m_accessor ld) n t)"
      and "find_index_of name (m_names ld) = Some nidx"
      and "(m_types ld ! nidx = DTYPE_INT64 \<and> (type = DTYPE_INT32 \<or> type = DTYPE_FLOAT64))
           \<or> \<not> is_numeric_dtype (m_types ld ! nidx)"
  shows "fill_column (ld\<lparr>m_accessor := (m_accessor ld)\<lparr>get_numpy_column := g'\<rparr>\<rparr>)
           tbl col name type cidx is_update
         = fill_column ld tbl col name type cidx is_update
       \<and> (m_init ld \<and> nc_array (get_numpy_column (m_accessor ld) name type) = Some array
            \<and> tbl_columns tbl col = Some c
            \<and> (is_numeric_dtype type \<or> type = DTYPE_DATE \<or> type = DTYPE_STR \<or> type = DTYPE_BOOL)
            \<and> (type = DTYPE_INT32 \<longrightarrow> col = name)
            \<and> fill_column ld tbl col name type cidx is_update = Inr tbl' \<longrightarrow>
            (\<exists>c'. tbl_columns tbl' col = Some c' \<and> col_size c' = col_size c
                \<and> (\<forall>j<col_size c.
                      snd (col_rows c' ! j) =
                        (if row_is_absent ld array type cidx j then absent_mark is_update
                         else ROW_PRESENT))))"
proof (intro conjI impI)
  let ?ld' = "ld\<lparr>m_accessor := (m_accessor ld)\<lparr>get_numpy_column := g'\<rparr>\<rparr>"
  have i: "m_init ?ld' = m_init ld" and m: "marshal (m_accessor ?ld') = marshal (m_accessor ld)"
    by simp_all
  have it: "fill_column_iter ?ld' = fill_column_iter ld"
    by (intro ext) (rule fill_column_iter_cong [OF i m])
  have cp: "copy_array ?ld' = copy_array ld"
    by (intro ext) (simp add: copy_array_def)
  have arr: "nc_array (g' name type) = nc_array (get_numpy_column (m_accessor ld) name type)"
    using assms(1) by simp
  show "fill_column ?ld' tbl col name type cidx is_update
          = fill_column ld tbl col name type cidx is_update"
  proof (cases "m_init ld")
    case False
    then show ?thesis by (simp add: fill_column_def)
  next
    case init: True
    show ?thesis
    proof (cases "nc_array (get_numpy_column (m_accessor ld) name type)")
      case None
      with init assms(2) arr show ?thesis by (simp add: fill_column_def)
    next
      case (Some array)
      show ?thesis
      proof (cases "m_types ld ! nidx = DTYPE_INT64 \<and> (type = DTYPE_INT32 \<or> type = DTYPE_FLOAT64)")
        case True
        with init assms(2) arr Some show ?thesis by (auto simp: fill_column_def Let_def it)
      next
        case False
        with assms(3) have nn: "\<not> is_numeric_dtype (m_types ld ! nidx)" by simp
        show ?thesis
        proof (cases "tbl_columns tbl col")
          case None
          with init assms(2) arr Some False show ?thesis by (auto simp: fill_column_def Let_def)
        next
          case c: (Some c)
          from copy_array_fail [OF init nn, of array c 0] init assms(2) arr Some False c
          show ?thesis by (auto simp: fill_column_def Let_def it cp)
        qed
      qed
    qed
  qed
next
  assume a: "m_init ld \<and> nc_array (get_numpy_column (m_accessor ld) name type) = Some array
            \<and> tbl_columns tbl col = Some c
            \<and> (is_numeric_dtype type \<or> type = DTYPE_DATE \<or> type = DTYPE_STR \<or> type = DTYPE_BOOL)
            \<and> (type = DTYPE_INT32 \<longrightarrow> col = name)
            \<and> fill_column ld tbl col name type cidx is_update = Inr tbl'"
  then have "fill_column ld tbl col name type cidx is_update =
           fill_column_iter ld array tbl col name (m_types ld ! nidx) type cidx is_update"
    using assms(2,3) by (intro fill_column_iterative) auto
  with a have "fill_column_iter ld array tbl col name (m_types ld ! nidx) type cidx is_update = Inr tbl'"
    by simp
  with a show "\<exists>c'. tbl_columns tbl' col = Some c' \<and> col_size c' = col_size c
                \<and> (\<forall>j<col_size c.
                      snd (col_rows c' ! j) =
                        (if row_is_absent ld array type cidx j then absent_mark is_update
                         else ROW_PRESENT))"
    by (intro fill_column_iter_marks [of ld tbl col c type name array "m_types ld ! nidx" cidx is_update tbl'])
       auto
qed


theorem null_positions_not_read_on_iterative_path_witness:
  "(\<forall>n t. nc_array (get_numpy_column (m_accessor (example_loader DTYPE_STR [] [0, 1] [PY_NONE, PY_STR ''b''])) n t)
          = nc_array (get_numpy_column (m_accessor (example_loader DTYPE_STR [] [] [PY_NONE, PY_STR ''b''])) n t))
   \<and> find_index_of ''a'' (m_names (example_loader DTYPE_STR [] [] [PY_NONE, PY_STR ''b''])) = Some 0
   \<and> \<not> is_numeric_dtype (m_types (example_loader DTYPE_STR [] [] [PY_NONE, PY_STR ''b'']) ! 0)
   \<and> fill_column (example_loader DTYPE_STR [] [0, 1] [PY_NONE, PY_STR ''b''])
         (example_table DTYPE_STR 2) ''a'' ''a'' DTYPE_STR 0 False
       = fill_column (example_loader DTYPE_STR [] [] [PY_NONE, PY_STR ''b''])
           (example_table DTYPE_STR 2) ''a'' ''a'' DTYPE_STR 0 False
   \<and> (\<exists>tbl' c'. fill_column (example_loader DTYPE_STR [] [] [PY_NONE, PY_STR ''b''])
                     (example_table DTYPE_STR 2) ''a'' ''a'' DTYPE_STR 0 False = Inr tbl'
          \<and> tbl_columns tbl' ''a'' = Some c'
          \<and> snd (col_rows c' ! 0) = ROW_CLEARED \<and> snd (col_rows c' ! 1) = ROW_PRESENT)"
proof -
  let ?l0 = "example_loader DTYPE_STR [] [] [PY_NONE, PY_STR ''b'']"
  let ?l1 = "example_loader DTYPE_STR [] [0, 1] [PY_NONE, PY_STR ''b'']"
  let ?g = "get_numpy_column (m_accessor ?l1)"
  let ?tbl = "example_table DTYPE_STR 2"
  have a1: "\<forall>n t. nc_array (?g n t) = nc_array (get_numpy_column (m_accessor ?l0) n t)"
    by (simp add: example_loader_def)
  have a2: "find_index_of ''a'' (m_names ?l0) = Some 0" by (simp add: example_loader_def)
  have nn: "\<not> is_numeric_dtype (m_types ?l0 ! 0)"
    by (simp add: example_loader_def is_numeric_dtype_def)
  then have a3: "(m_types ?l0 ! 0 = DTYPE_INT64 \<and> (DTYPE_STR = DTYPE_INT32 \<or> DTYPE_STR = DTYPE_FLOAT64))
                 \<or> \<not> is_numeric_dtype (m_types ?l0 ! 0)" by simp
  have l1: "?l0\<lparr>m_accessor := (m_accessor ?l0)\<lparr>get_numpy_column := ?g\<rparr>\<rparr> = ?l1"
    by (simp add: example_loader_def)
  have h1: "m_init ?l0" by (simp add: example_loader_def)
  have h2: "nc_array (get_numpy_column (m_accessor ?l0) ''a'' DTYPE_STR) = Some (bytes_at [])"
    by (simp add: example_loader_def)
  have h3: "tbl_columns ?tbl ''a'' = Some (new_column DTYPE_STR 2)" by (simp add: example_table_def)
  have "\<exists>t2. fill_column ?l0 ?tbl ''a'' ''a'' DTYPE_STR 0 False = Inr t2"
    by (simp add: fill_column_def copy_array_def fill_column_iter_def fill_string_iter_def
          example_eval upt_conv_Cons numeral_2_eq_2)
  then obtain t2 where h4: "fill_column ?l0 ?tbl ''a'' ''a'' DTYPE_STR 0 False = Inr t2" ..
  have ab: "row_is_absent ?l0 (bytes_at []) DTYPE_STR 0 0" "\<not> row_is_absent ?l0 (bytes_at []) DTYPE_STR 0 1"
    by (simp_all add: row_is_absent_def example_loader_def is_none_def)
  have sz: "col_size (new_column DTYPE_STR 2) = 2" by (simp add: col_size_def new_column_def)
  note th = null_positions_not_read_on_iterative_path
              [where g' = ?g and ld = ?l0 and name = "''a''" and nidx = 0 and type = DTYPE_STR
                 and tbl = ?tbl and col = "''a''" and cidx = 0 and is_update = False
                 and array = "bytes_at []" and c = "new_column DTYPE_STR 2" and tbl' = t2,
               OF a1 a2 a3]
  from th [THEN conjunct1] have e: "fill_column ?l1 ?tbl ''a'' ''a'' DTYPE_STR 0 False
                                = fill_column ?l0 ?tbl ''a'' ''a'' DTYPE_STR 0 False"
    unfolding l1 .
  from th [THEN conjunct2] h1 h2 h3 h4 obtain c2 where
    s1: "tbl_columns t2 ''a'' = Some c2" and
    s2: "\<forall>j<2. snd (col_rows c2 ! j) =
           (if row_is_absent ?l0 (bytes_at []) DTYPE_STR 0 j then absent_mark False else ROW_PRESENT)"
    unfolding sz by auto
  from s2 ab have s3: "snd (col_rows c2 ! 0) = ROW_CLEARED" "snd (col_rows c2 ! 1) = ROW_PRESENT"
    by (simp_all add: absent_mark_def)
  show ?thesis using a1 a2 nn e h4 s1 s3 by blast
qed

end
